theory Spec2Isabelle
  imports Main
begin

section \<open>Data model\<close>

text \<open>
  The application is a Django REST service. The persistent store is modelled as a record
  of tables that every operation takes and returns; an exception of the Python code is a
  value of type \<open>error\<close>. Row identifiers, user identifiers and the identifiers of a
  filter parameter are Python integers, modelled as \<open>int\<close>.
\<close>

datatype error =
  ValueError
  | MultipleObjectsReturned
  | IntegrityError
  | Http404
  | ValidationError

text \<open>
  Modelled from the spec: \<open>core/models.py\<close> (the classes Recipe, Tag and Ingredient) is
  not among the sources. Section 3 of the specification gives a Tag and an Ingredient the
  fields id, name and owner, and says that the two are structurally identical, so one
  record type serves both tables.
\<close>

record recipe_attr =
  attr_id :: int
  attr_name :: string
  attr_user :: int

text \<open>
  Modelled from the spec: the fields of a Recipe follow section 3 of the specification
  and the field list of \<open>RecipeSerializer.Meta\<close>. The price is kept in hundredths, the
  image as the reference of the stored file.
\<close>

record recipe =
  r_id :: int
  r_user :: int
  r_title :: string
  r_time_minutes :: int
  r_price :: int
  r_link :: string
  r_description :: string
  r_image :: "string option"

text \<open>
  A table of Tag or Ingredient rows together with its identifier sequence and the
  many-to-many table that links it to recipes: a link is a pair (recipe id, row id).
\<close>

record attr_table =
  rows :: "recipe_attr list"
  next_id :: int
  links :: "(int \<times> int) list"

record db =
  recipes :: "recipe list"
  next_recipe_id :: int
  tag_table :: attr_table
  ingredient_table :: attr_table

section \<open>Parsing a filter parameter (\<open>recipe/views.py\<close>)\<close>

text \<open>
  Python's \<open>qs.split(",")\<close>: the segments between commas; the empty string has the one
  segment \<open>""\<close>.
\<close>

fun split_comma :: "string \<Rightarrow> string list" where
  "split_comma [] = [[]]"
| "split_comma (c # cs) =
     (if c = CHR '','' then [] # split_comma cs
      else (case split_comma cs of
              [] \<Rightarrow> [[c]]
            | w # ws \<Rightarrow> (c # w) # ws))"

text \<open>
  Python's \<open>int(s)\<close> on a string. A character of the model is a code point below 256
  (further decimal digits and whitespace that Python knows lie beyond that range and cannot
  occur in a string of the model). Whitespace at both ends is dropped: the ASCII
  whitespace 9 to 13 and 32, and the code points 133 and 160; the separators 28 to 31 are
  not dropped by \<open>int\<close>. Then comes an optional sign, then decimal digits, where a single
  underscore may stand between two digits. Anything else raises ValueError, here
  \<open>None\<close>.

  The interpreter also raises ValueError when the string has more digits than its limit
  \<open>sys.get_int_max_str_digits()\<close>, which never applies to 640 digits or fewer. The limit
  is a setting of the interpreter (4300 by default where it exists, 0 for no limit) and
  is the parameter \<open>max_str_digits\<close>.
\<close>

definition is_space :: "char \<Rightarrow> bool" where
  "is_space c = ((of_char c :: nat) \<in> {9, 10, 11, 12, 13, 32, 133, 160})"

definition is_digit :: "char \<Rightarrow> bool" where
  "is_digit c = (48 \<le> (of_char c :: nat) \<and> (of_char c :: nat) \<le> 57)"

definition digit_val :: "char \<Rightarrow> int" where
  "digit_val c = int (of_char c) - 48"

fun digits_value :: "int \<Rightarrow> string \<Rightarrow> int option" where
  "digits_value acc [] = None"
| "digits_value acc [c] =
     (if is_digit c then Some (10 * acc + digit_val c) else None)"
| "digits_value acc (c # d # cs) =
     (if \<not> is_digit c then None
      else if d = CHR ''_'' then digits_value (10 * acc + digit_val c) cs
      else digits_value (10 * acc + digit_val c) (d # cs))"

definition strip :: "string \<Rightarrow> string" where
  "strip s = rev (dropWhile is_space (rev (dropWhile is_space s)))"

definition too_many_digits :: "nat \<Rightarrow> string \<Rightarrow> bool" where
  "too_many_digits max_str_digits s =
     (let digits = length (filter is_digit s)
      in 640 < digits \<and> 0 < max_str_digits \<and> max_str_digits < digits)"

definition py_int :: "nat \<Rightarrow> string \<Rightarrow> int option" where
  "py_int max_str_digits s =
     (case strip s of
        [] \<Rightarrow> None
      | c # cs \<Rightarrow>
          if too_many_digits max_str_digits (c # cs) then None
          else if c = CHR ''-'' then map_option uminus (digits_value 0 cs)
          else if c = CHR ''+'' then digits_value 0 cs
          else digits_value 0 (c # cs))"

text \<open>
  The list comprehension \<open>[int(str_id) for str_id in ...]\<close>: the first segment that
  \<open>int\<close> rejects raises ValueError and no list is built.
\<close>

fun ints_of :: "nat \<Rightarrow> string list \<Rightarrow> error + int list" where
  "ints_of max_str_digits [] = Inr []"
| "ints_of max_str_digits (s # ss) =
     (case py_int max_str_digits s of
        None \<Rightarrow> Inl ValueError
      | Some i \<Rightarrow>
          (case ints_of max_str_digits ss of Inl e \<Rightarrow> Inl e | Inr is \<Rightarrow> Inr (i # is)))"

definition params_to_ints :: "nat \<Rightarrow> string \<Rightarrow> error + int list" where
  "params_to_ints max_str_digits qs = ints_of max_str_digits (split_comma qs)"

section \<open>The recipe query (\<open>RecipeViewSet.get_queryset\<close>)\<close>

text \<open>
  \<open>queryset.filter(tags__id__in=ids)\<close> joins the recipes with the link table: a recipe
  comes once for every link of its own whose row id is in the list, so it can come more
  than once, or not at all.
\<close>

definition filter_id_in :: "(int \<times> int) list \<Rightarrow> int list \<Rightarrow> recipe list \<Rightarrow> recipe list" where
  "filter_id_in lnks ids queryset =
     concat (map (\<lambda>r. map (\<lambda>l. r) (filter (\<lambda>l. fst l = r_id r \<and> snd l \<in> set ids) lnks)) queryset)"

definition filter_user :: "int \<Rightarrow> recipe list \<Rightarrow> recipe list" where
  "filter_user user queryset = filter (\<lambda>r. r_user r = user) queryset"

definition order_by_desc_id :: "recipe list \<Rightarrow> recipe list" where
  "order_by_desc_id queryset = rev (sort_key r_id queryset)"

definition distinct_rows :: "recipe list \<Rightarrow> recipe list" where
  "distinct_rows queryset = remdups queryset"

text \<open>
  The parameters are \<open>request.query_params.get("tags")\<close> and
  \<open>request.query_params.get("ingredients")\<close>: \<open>None\<close> when the key is absent. The test
  \<open>if tags:\<close> is false for \<open>None\<close> and for the empty string. The first argument is
  the digit limit of the interpreter, which \<open>int\<close> consults.
\<close>

definition get_queryset :: "nat \<Rightarrow> db \<Rightarrow> int \<Rightarrow> string option \<Rightarrow> string option \<Rightarrow> error + recipe list" where
  "get_queryset max_str_digits d user tags ingredients =
     (let queryset = recipes d in
      case (case tags of
              None \<Rightarrow> Inr queryset
            | Some qs \<Rightarrow>
                if qs = [] then Inr queryset
                else (case params_to_ints max_str_digits qs of
                        Inl e \<Rightarrow> Inl e
                      | Inr tag_ids \<Rightarrow> Inr (filter_id_in (links (tag_table d)) tag_ids queryset))) of
        Inl e \<Rightarrow> Inl e
      | Inr queryset \<Rightarrow>
          (case (case ingredients of
                   None \<Rightarrow> Inr queryset
                 | Some qs \<Rightarrow>
                     if qs = [] then Inr queryset
                     else (case params_to_ints max_str_digits qs of
                             Inl e \<Rightarrow> Inl e
                           | Inr ingredient_ids \<Rightarrow>
                               Inr (filter_id_in (links (ingredient_table d)) ingredient_ids queryset))) of
             Inl e \<Rightarrow> Inl e
           | Inr queryset \<Rightarrow>
               Inr (distinct_rows (order_by_desc_id (filter_user user queryset)))))"

section \<open>Get-or-create and linking (\<open>recipe/serializers.py\<close>)\<close>

text \<open>
  Django's \<open>objects.get_or_create(user=auth_user, name=...)\<close>: the rows with this user
  and this name are looked up. Exactly one row is returned as it is; no row makes a new one
  with the next identifier of the table; more than one row raises MultipleObjectsReturned.
  The second component of the result is Django's \<open>created\<close> flag.
\<close>

definition matching :: "int \<Rightarrow> string \<Rightarrow> recipe_attr list \<Rightarrow> recipe_attr list" where
  "matching user name rs = filter (\<lambda>x. attr_user x = user \<and> attr_name x = name) rs"

definition get_or_create :: "int \<Rightarrow> string \<Rightarrow> attr_table \<Rightarrow> error + (recipe_attr \<times> bool \<times> attr_table)" where
  "get_or_create user name t =
     (case matching user name (rows t) of
        [] \<Rightarrow>
          (let obj = \<lparr>attr_id = next_id t, attr_name = name, attr_user = user\<rparr>
           in Inr (obj, True, t\<lparr>rows := rows t @ [obj], next_id := next_id t + 1\<rparr>))
      | [obj] \<Rightarrow> Inr (obj, False, t)
      | obj # obj' # others \<Rightarrow> Inl MultipleObjectsReturned)"

text \<open>
  \<open>recipe.tags.add(obj)\<close> inserts the link unless it is there already;
  \<open>instance.tags.clear()\<close> deletes every link of the recipe.
\<close>

definition add_link :: "int \<Rightarrow> int \<Rightarrow> attr_table \<Rightarrow> attr_table" where
  "add_link rid cid t =
     (if (rid, cid) \<in> set (links t) then t else t\<lparr>links := links t @ [(rid, cid)]\<rparr>)"

definition clear_links :: "int \<Rightarrow> attr_table \<Rightarrow> attr_table" where
  "clear_links rid t = t\<lparr>links := filter (\<lambda>l. fst l \<noteq> rid) (links t)\<rparr>"

text \<open>
  The loop of \<open>_get_or_create_tags\<close> and of \<open>_get_or_create_ingredients\<close> over one
  table. A spec \<open>{"name": n}\<close> is its name. An exception leaves the loop with the rows and
  links written so far: the settings of the project are not among the sources, and by
  Django's default every store call commits on its own.
\<close>

fun get_or_create_attrs :: "int \<Rightarrow> string list \<Rightarrow> recipe \<Rightarrow> attr_table \<Rightarrow> error option \<times> attr_table" where
  "get_or_create_attrs auth_user [] recipe t = (None, t)"
| "get_or_create_attrs auth_user (n # ns) recipe t =
     (case get_or_create auth_user n t of
        Inl e \<Rightarrow> (Some e, t)
      | Inr (obj, created, t') \<Rightarrow>
          get_or_create_attrs auth_user ns recipe (add_link (r_id recipe) (attr_id obj) t'))"

definition get_or_create_tags :: "int \<Rightarrow> string list \<Rightarrow> recipe \<Rightarrow> db \<Rightarrow> error option \<times> db" where
  "get_or_create_tags auth_user tags recipe d =
     (case get_or_create_attrs auth_user tags recipe (tag_table d) of
        (res, t) \<Rightarrow> (res, d\<lparr>tag_table := t\<rparr>))"

definition get_or_create_ingredients :: "int \<Rightarrow> string list \<Rightarrow> recipe \<Rightarrow> db \<Rightarrow> error option \<times> db" where
  "get_or_create_ingredients auth_user ingredients recipe d =
     (case get_or_create_attrs auth_user ingredients recipe (ingredient_table d) of
        (res, t) \<Rightarrow> (res, d\<lparr>ingredient_table := t\<rparr>))"

section \<open>Create and update (\<open>RecipeSerializer\<close>)\<close>

text \<open>
  The dictionary \<open>validated_data\<close>: a key that is absent is \<open>None\<close>. The keys are the
  writable fields of \<open>RecipeDetailSerializer.Meta.fields\<close>, and \<open>user\<close>, which only
  \<open>serializer.save(user=...)\<close> can put there. A tag or ingredient list is the list of
  the names of its specs.
\<close>

record validated_data =
  vd_title :: "string option"
  vd_time_minutes :: "int option"
  vd_price :: "int option"
  vd_link :: "string option"
  vd_description :: "string option"
  vd_image :: "string option option"
  vd_tags :: "string list option"
  vd_ingredients :: "string list option"
  vd_user :: "int option"

text \<open>
  Modelled from the spec: \<open>Recipe.objects.create(**validated_data)\<close> inserts a row
  with the next identifier. \<open>core/models.py\<close> is not among the sources; by section 3 of the
  specification the owner, the time and the price are mandatory (a missing one is an
  IntegrityError of the store), the link, the description and the image are optional.
\<close>

definition objects_create :: "validated_data \<Rightarrow> db \<Rightarrow> error + (recipe \<times> db)" where
  "objects_create validated_data d =
     (case (vd_user validated_data, vd_time_minutes validated_data, vd_price validated_data) of
        (Some u, Some m, Some p) \<Rightarrow>
          (let recipe =
                 \<lparr>r_id = next_recipe_id d,
                  r_user = u,
                  r_title = (case vd_title validated_data of None \<Rightarrow> [] | Some s \<Rightarrow> s),
                  r_time_minutes = m,
                  r_price = p,
                  r_link = (case vd_link validated_data of None \<Rightarrow> [] | Some s \<Rightarrow> s),
                  r_description = (case vd_description validated_data of None \<Rightarrow> [] | Some s \<Rightarrow> s),
                  r_image = (case vd_image validated_data of None \<Rightarrow> None | Some i \<Rightarrow> i)\<rparr>
           in Inr (recipe, d\<lparr>recipes := recipes d @ [recipe],
                              next_recipe_id := next_recipe_id d + 1\<rparr>))
      | _ \<Rightarrow> Inl IntegrityError)"

definition create :: "int \<Rightarrow> validated_data \<Rightarrow> db \<Rightarrow> (error + recipe) \<times> db" where
  "create auth_user validated_data d =
     (let tags = (case vd_tags validated_data of None \<Rightarrow> [] | Some ts \<Rightarrow> ts);
          ingredients = (case vd_ingredients validated_data of None \<Rightarrow> [] | Some is \<Rightarrow> is);
          validated_data = validated_data\<lparr>vd_tags := None, vd_ingredients := None\<rparr>
      in case objects_create validated_data d of
           Inl e \<Rightarrow> (Inl e, d)
         | Inr (recipe, d1) \<Rightarrow>
             (case get_or_create_tags auth_user tags recipe d1 of
                (Some e, d2) \<Rightarrow> (Inl e, d2)
              | (None, d2) \<Rightarrow>
                  (case get_or_create_ingredients auth_user ingredients recipe d2 of
                     (Some e, d3) \<Rightarrow> (Inl e, d3)
                   | (None, d3) \<Rightarrow> (Inr recipe, d3))))"

text \<open>
  \<open>for attr, value in validated_data.items(): setattr(instance, attr, value)\<close>, after
  the two list keys have been popped.
\<close>

definition set_attrs :: "validated_data \<Rightarrow> recipe \<Rightarrow> recipe" where
  "set_attrs validated_data instance =
     instance\<lparr>
       r_title := (case vd_title validated_data of None \<Rightarrow> r_title instance | Some v \<Rightarrow> v),
       r_time_minutes := (case vd_time_minutes validated_data of None \<Rightarrow> r_time_minutes instance | Some v \<Rightarrow> v),
       r_price := (case vd_price validated_data of None \<Rightarrow> r_price instance | Some v \<Rightarrow> v),
       r_link := (case vd_link validated_data of None \<Rightarrow> r_link instance | Some v \<Rightarrow> v),
       r_description := (case vd_description validated_data of None \<Rightarrow> r_description instance | Some v \<Rightarrow> v),
       r_image := (case vd_image validated_data of None \<Rightarrow> r_image instance | Some v \<Rightarrow> v),
       r_user := (case vd_user validated_data of None \<Rightarrow> r_user instance | Some v \<Rightarrow> v)\<rparr>"

text \<open>
  \<open>instance.save()\<close>: the row with the identifier of the instance is overwritten; were
  there none, the instance would be inserted.
\<close>

definition save :: "recipe \<Rightarrow> db \<Rightarrow> db" where
  "save instance d =
     (if r_id instance \<in> r_id ` set (recipes d)
      then d\<lparr>recipes := map (\<lambda>r. if r_id r = r_id instance then instance else r) (recipes d)\<rparr>
      else d\<lparr>recipes := recipes d @ [instance]\<rparr>)"

definition update :: "int \<Rightarrow> recipe \<Rightarrow> validated_data \<Rightarrow> db \<Rightarrow> (error + recipe) \<times> db" where
  "update auth_user instance validated_data d =
     (let tags = vd_tags validated_data;
          ingredients = vd_ingredients validated_data;
          validated_data = validated_data\<lparr>vd_tags := None, vd_ingredients := None\<rparr>
      in case (case tags of
                 None \<Rightarrow> (None, d)
               | Some ts \<Rightarrow>
                   get_or_create_tags auth_user ts instance
                     (d\<lparr>tag_table := clear_links (r_id instance) (tag_table d)\<rparr>)) of
           (Some e, d1) \<Rightarrow> (Inl e, d1)
         | (None, d1) \<Rightarrow>
             (case (case ingredients of
                      None \<Rightarrow> (None, d1)
                    | Some is \<Rightarrow>
                        get_or_create_ingredients auth_user is instance
                          (d1\<lparr>ingredient_table := clear_links (r_id instance) (ingredient_table d1)\<rparr>)) of
                (Some e, d2) \<Rightarrow> (Inl e, d2)
              | (None, d2) \<Rightarrow>
                  (let instance = set_attrs validated_data instance
                   in (Inr instance, save instance d2))))"

section \<open>The view (\<open>RecipeViewSet\<close>)\<close>

text \<open>
  The request data of a create or update request, as a dictionary of optional keys. Besides
  the fields of the serializer a client may send any other key; \<open>id\<close> and \<open>user\<close> are
  the two that name a column of the recipe.
\<close>

record payload =
  p_id :: "int option"
  p_user :: "int option"
  p_title :: "string option"
  p_time_minutes :: "int option"
  p_price :: "int option"
  p_link :: "string option"
  p_description :: "string option"
  p_image :: "string option option"
  p_tags :: "string list option"
  p_ingredients :: "string list option"

text \<open>
  The serializer reads the writable fields of \<open>Meta.fields\<close> (\<open>id\<close> is read-only,
  \<open>user\<close> is not a field) and drops every other key of the request data. The values of
  the request data stand for values that have passed the validation of their own field
  (a tag name is the trimmed name); a request with a value that its field refuses, or
  without a required field, is answered with status 400 before \<open>perform_create\<close> or
  \<open>perform_update\<close> runs, and is no request of the model.
\<close>

definition to_internal_value :: "payload \<Rightarrow> validated_data" where
  "to_internal_value data =
     \<lparr>vd_title = p_title data,
      vd_time_minutes = p_time_minutes data,
      vd_price = p_price data,
      vd_link = p_link data,
      vd_description = p_description data,
      vd_image = p_image data,
      vd_tags = p_tags data,
      vd_ingredients = p_ingredients data,
      vd_user = None\<rparr>"

text \<open>
  \<open>perform_create\<close> is \<open>serializer.save(user=self.request.user)\<close>: the keyword is
  merged into the validated data, which go to \<open>create\<close>. An update keeps the framework's
  \<open>perform_update\<close>, \<open>serializer.save()\<close>, which calls \<open>update\<close> on the instance.
\<close>

definition perform_create :: "int \<Rightarrow> payload \<Rightarrow> db \<Rightarrow> (error + recipe) \<times> db" where
  "perform_create request_user data d =
     create request_user ((to_internal_value data)\<lparr>vd_user := Some request_user\<rparr>) d"

definition perform_update :: "int \<Rightarrow> recipe \<Rightarrow> payload \<Rightarrow> db \<Rightarrow> (error + recipe) \<times> db" where
  "perform_update request_user instance data d =
     update request_user instance (to_internal_value data) d"

text \<open>
  \<open>get_object\<close> of the framework looks the primary key up in \<open>get_queryset()\<close> and
  raises Http404 when the row is not there.
\<close>

definition get_object :: "nat \<Rightarrow> db \<Rightarrow> int \<Rightarrow> string option \<Rightarrow> string option \<Rightarrow> int \<Rightarrow> error + recipe" where
  "get_object max_str_digits d user tags ingredients pk =
     (case get_queryset max_str_digits d user tags ingredients of
        Inl e \<Rightarrow> Inl e
      | Inr queryset \<Rightarrow>
          (case filter (\<lambda>r. r_id r = pk) queryset of
             [] \<Rightarrow> Inl Http404
           | [r] \<Rightarrow> Inr r
           | r # r' # others \<Rightarrow> Inl MultipleObjectsReturned))"

text \<open>
  \<open>TagViewSet\<close> and \<open>IngredientViewSet\<close> inherit the update operation of
  \<open>UpdateModelMixin\<close>. Their serializers have the writable field \<open>name\<close> only, so an
  update of an instance sets its name and saves the row.
\<close>

definition attr_update :: "recipe_attr \<Rightarrow> string \<Rightarrow> attr_table \<Rightarrow> attr_table" where
  "attr_update instance name t =
     t\<lparr>rows := map (\<lambda>x. if attr_id x = attr_id instance then instance\<lparr>attr_name := name\<rparr> else x)
                    (rows t)\<rparr>"

definition HTTP_200_OK :: nat where
  "HTTP_200_OK = 200"

definition HTTP_400_BAD_REQUEST :: nat where
  "HTTP_400_BAD_REQUEST = 400"

text \<open>
  \<open>upload_image\<close>. The validation of the request data by \<open>RecipeImageSerializer\<close>
  (the image is required and must decode as an image) is the parameter \<open>is_valid\<close>:
  \<open>None\<close> when the data are rejected, the validated value of the field otherwise.
  \<open>serializer.save()\<close> sets the field on the recipe and saves it. The result is the
  status of the response.
\<close>

definition upload_image ::
  "('f \<Rightarrow> string option option) \<Rightarrow> nat \<Rightarrow> db \<Rightarrow> int \<Rightarrow> string option \<Rightarrow> string option \<Rightarrow> int \<Rightarrow> 'f
     \<Rightarrow> (error + nat) \<times> db" where
  "upload_image is_valid max_str_digits d user tags ingredients pk data =
     (case get_object max_str_digits d user tags ingredients pk of
        Inl e \<Rightarrow> (Inl e, d)
      | Inr recipe \<Rightarrow>
          (case is_valid data of
             Some img \<Rightarrow> (Inr HTTP_200_OK, save (recipe\<lparr>r_image := img\<rparr>) d)
           | None \<Rightarrow> (Inr HTTP_400_BAD_REQUEST, d)))"

text \<open>
  The framework's exception handler turns Http404 into status 404 and a validation error
  into status 400; any other exception is not handled and ends as a server error, 500.
  \<open>list\<close> answers 200 with the rows of \<open>get_queryset()\<close>.
\<close>

definition handle_exception :: "error \<Rightarrow> nat" where
  "handle_exception e =
     (case e of Http404 \<Rightarrow> 404 | ValidationError \<Rightarrow> HTTP_400_BAD_REQUEST | _ \<Rightarrow> 500)"

definition list_recipes :: "nat \<Rightarrow> db \<Rightarrow> int \<Rightarrow> string option \<Rightarrow> string option \<Rightarrow> nat \<times> recipe list" where
  "list_recipes max_str_digits d user tags ingredients =
     (case get_queryset max_str_digits d user tags ingredients of
        Inl e \<Rightarrow> (handle_exception e, [])
      | Inr queryset \<Rightarrow> (HTTP_200_OK, queryset))"

section \<open>Notions of the specification\<close>

text \<open>
  A recipe is linked to at least one of the requested identifiers.
\<close>

definition linked_to_one_of :: "(int \<times> int) list \<Rightarrow> int list \<Rightarrow> recipe \<Rightarrow> bool" where
  "linked_to_one_of lnks ids r = (\<exists>c \<in> set ids. (r_id r, c) \<in> set lnks)"

text \<open>
  What a filter parameter asks of a recipe: nothing when the parameter is absent or empty,
  a link to one of its identifiers otherwise.
\<close>

definition requested :: "nat \<Rightarrow> (int \<times> int) list \<Rightarrow> string option \<Rightarrow> recipe \<Rightarrow> bool" where
  "requested max_str_digits lnks param r =
     (case param of
        None \<Rightarrow> True
      | Some qs \<Rightarrow>
          qs = [] \<or> (case params_to_ints max_str_digits qs of Inl e \<Rightarrow> False | Inr ids \<Rightarrow> linked_to_one_of lnks ids r))"

text \<open>
  A parameter that is parsed and has a segment that \<open>int\<close> rejects.
\<close>

definition rejected :: "nat \<Rightarrow> string option \<Rightarrow> bool" where
  "rejected max_str_digits param =
     (case param of
        None \<Rightarrow> False
      | Some qs \<Rightarrow> qs \<noteq> [] \<and> (\<exists>s \<in> set (split_comma qs). py_int max_str_digits s = None))"

text \<open>
  The identifiers of the rows linked to a recipe, and the identifiers of the rows of a user
  whose name is in a list of specs.
\<close>

definition linked_ids :: "attr_table \<Rightarrow> int \<Rightarrow> int set" where
  "linked_ids t rid = snd ` {l \<in> set (links t). fst l = rid}"

definition resolved :: "int \<Rightarrow> string list \<Rightarrow> attr_table \<Rightarrow> int set" where
  "resolved user names t =
     attr_id ` {x \<in> set (rows t). attr_user x = user \<and> attr_name x \<in> set names}"

text \<open>
  A list of names without the repetitions of a name after its first occurrence.
\<close>

fun first_occurrences :: "string list \<Rightarrow> string list" where
  "first_occurrences [] = []"
| "first_occurrences (n # ns) = n # first_occurrences (filter (\<lambda>m. m \<noteq> n) ns)"

text \<open>
  The caller has at most one row of each name of a list; the names of a list up to the
  first one of which the caller has several rows; and a key that is absent or whose list
  has no such name.
\<close>

definition unambiguous :: "int \<Rightarrow> string list \<Rightarrow> attr_table \<Rightarrow> bool" where
  "unambiguous user names t = (\<forall>n \<in> set names. length (matching user n (rows t)) \<le> 1)"

definition processed :: "int \<Rightarrow> string list \<Rightarrow> attr_table \<Rightarrow> string list" where
  "processed user names t = takeWhile (\<lambda>n. length (matching user n (rows t)) \<le> 1) names"

definition key_ok :: "int \<Rightarrow> string list option \<Rightarrow> attr_table \<Rightarrow> bool" where
  "key_ok user key t = (case key of None \<Rightarrow> True | Some names \<Rightarrow> unambiguous user names t)"

text \<open>
  A name has exactly one row of the user, and the link table holds the link of the recipe
  to that row exactly once.
\<close>

definition one_row_linked_once :: "int \<Rightarrow> string \<Rightarrow> int \<Rightarrow> attr_table \<Rightarrow> bool" where
  "one_row_linked_once user n rid t =
     (case matching user n (rows t) of
        [x] \<Rightarrow> count_list (links t) (rid, attr_id x) = 1
      | _ \<Rightarrow> False)"

section \<open>Example stores\<close>

text \<open>
  Two users. User 1 owns the recipes 1, 2 and 4 and the tags vegan and vegetarian; user 2
  owns recipe 3 and a tag vegan of their own.
\<close>

definition recipe_1 :: recipe where
  "recipe_1 = \<lparr>r_id = 1, r_user = 1, r_title = ''thai curry'', r_time_minutes = 22, r_price = 550,
     r_link = ''https://example.com/recipe.pdf'', r_description = ''some description'', r_image = None\<rparr>"

definition recipe_2 :: recipe where
  "recipe_2 = \<lparr>r_id = 2, r_user = 1, r_title = ''eggplant'', r_time_minutes = 22, r_price = 550,
     r_link = ''https://example.com/recipe.pdf'', r_description = ''some description'', r_image = Some ''uploads/recipe/a.jpg''\<rparr>"

definition recipe_3 :: recipe where
  "recipe_3 = \<lparr>r_id = 3, r_user = 2, r_title = ''fish and chips'', r_time_minutes = 22, r_price = 550,
     r_link = ''https://example.com/recipe.pdf'', r_description = ''some description'', r_image = None\<rparr>"

definition recipe_4 :: recipe where
  "recipe_4 = \<lparr>r_id = 4, r_user = 1, r_title = ''french fries'', r_time_minutes = 5, r_price = 200,
     r_link = [], r_description = [], r_image = None\<rparr>"

definition example_db :: db where
  "example_db =
     \<lparr>recipes = [recipe_1, recipe_2, recipe_3, recipe_4],
      next_recipe_id = 5,
      tag_table =
        \<lparr>rows = [\<lparr>attr_id = 1, attr_name = ''vegan'', attr_user = 1\<rparr>,
                 \<lparr>attr_id = 2, attr_name = ''vegetarian'', attr_user = 1\<rparr>,
                 \<lparr>attr_id = 3, attr_name = ''vegan'', attr_user = 2\<rparr>],
         next_id = 4,
         links = [(1, 1), (1, 2), (2, 2), (3, 3)]\<rparr>,
      ingredient_table =
        \<lparr>rows = [\<lparr>attr_id = 1, attr_name = ''salt'', attr_user = 1\<rparr>],
         next_id = 2,
         links = [(2, 1)]\<rparr>\<rparr>"

text \<open>
  The example store after user 1 has renamed tag 2 to vegan through the update operation
  of the tag endpoint: the user now owns two tags of that name. Nothing in the sources
  forbids it, and the specification notes that the store has no such constraint.
\<close>

definition duplicate_db :: db where
  "duplicate_db =
     example_db\<lparr>tag_table :=
       attr_update \<lparr>attr_id = 2, attr_name = ''vegetarian'', attr_user = 1\<rparr> ''vegan''
         (tag_table example_db)\<rparr>"

text \<open>
  Validated data and request data without any key, and the requests of the examples.
\<close>

definition no_data :: validated_data where
  "no_data =
     \<lparr>vd_title = None, vd_time_minutes = None, vd_price = None, vd_link = None,
      vd_description = None, vd_image = None, vd_tags = None, vd_ingredients = None,
      vd_user = None\<rparr>"

definition no_payload :: payload where
  "no_payload =
     \<lparr>p_id = None, p_user = None, p_title = None, p_time_minutes = None, p_price = None,
      p_link = None, p_description = None, p_image = None, p_tags = None,
      p_ingredients = None\<rparr>"

definition lunch_data :: validated_data where
  "lunch_data =
     no_data\<lparr>vd_tags := Some [''vegetarian'', ''lunch''], vd_ingredients := Some []\<rparr>"

definition salt_data :: validated_data where
  "salt_data = no_data\<lparr>vd_tags := Some [], vd_ingredients := Some [''salt'', ''pepper'']\<rparr>"

definition title_data :: validated_data where
  "title_data = no_data\<lparr>vd_title := Some ''New recipe title''\<rparr>"

definition pongal_payload :: payload where
  "pongal_payload =
     no_payload\<lparr>p_user := Some 2, p_title := Some ''Pongal'', p_time_minutes := Some 60,
       p_price := Some 650, p_tags := Some [''vegan'', ''Breakfast'']\<rparr>"

definition pongal :: recipe where
  "pongal = \<lparr>r_id = 5, r_user = 1, r_title = ''Pongal'', r_time_minutes = 60, r_price = 650,
     r_link = [], r_description = [], r_image = None\<rparr>"

definition plain_data :: validated_data where
  "plain_data =
     no_data\<lparr>vd_title := Some ''Pongal'', vd_time_minutes := Some 60, vd_price := Some 650,
       vd_user := Some 1\<rparr>"

definition partial_data :: validated_data where
  "partial_data =
     no_data\<lparr>vd_tags := Some [''lunch'', ''vegan'', ''dinner''], vd_ingredients := Some [''pepper'']\<rparr>"

definition vegan_data :: validated_data where
  "vegan_data = no_data\<lparr>vd_tags := Some [''vegan''], vd_ingredients := Some []\<rparr>"

definition twice_data :: validated_data where
  "twice_data =
     plain_data\<lparr>vd_tags := Some [''lunch'', ''vegan'', ''lunch''],
       vd_ingredients := Some [''salt'', ''salt'']\<rparr>"

definition twice_vegan_data :: validated_data where
  "twice_vegan_data = plain_data\<lparr>vd_tags := Some [''vegan'', ''vegan'']\<rparr>"

text \<open>
  An image validation for the examples: the text \<open>notanimage\<close> is rejected, any other
  upload is accepted and stored under its own name.
\<close>

definition example_is_valid :: "string \<Rightarrow> string option option" where
  "example_is_valid data = (if data = ''notanimage'' then None else Some (Some data))"

section \<open>Properties of the recipe query\<close>

lemma set_filter_id_in:
  "set (filter_id_in lnks ids queryset) = {r \<in> set queryset. linked_to_one_of lnks ids r}"
proof (induction queryset)
  case Nil
  then show ?case by (simp add: filter_id_in_def)
next
  case (Cons r queryset)
  have "set (map (\<lambda>l. r) (filter (\<lambda>l. fst l = r_id r \<and> snd l \<in> set ids) lnks))
          = (if linked_to_one_of lnks ids r then {r} else {})"
    by (force simp: linked_to_one_of_def)
  with Cons show ?case
    by (auto simp: filter_id_in_def)
qed

lemma set_finish:
  "set (distinct_rows (order_by_desc_id (filter_user user queryset))) = {r \<in> set queryset. r_user r = user}"
  by (auto simp: distinct_rows_def order_by_desc_id_def filter_user_def)

lemma distinct_finish: "distinct (distinct_rows (order_by_desc_id q))"
  by (simp add: distinct_rows_def)

lemma sorted_wrt_remdups: "sorted_wrt P xs \<Longrightarrow> sorted_wrt P (remdups xs)"
  by (induction xs) auto

lemma sorted_finish: "sorted (rev (map r_id (distinct_rows (order_by_desc_id q))))"
proof -
  have "sorted_wrt (\<lambda>x y. r_id y \<le> r_id x) (rev (sort_key r_id q))"
    using sorted_sort_key[of r_id q] by (simp add: sorted_wrt_rev sorted_map)
  then have "sorted_wrt (\<lambda>x y. r_id y \<le> r_id x) (remdups (rev (sort_key r_id q)))"
    by (rule sorted_wrt_remdups)
  then have "sorted_wrt (\<lambda>x y. y \<le> x) (map r_id (remdups (rev (sort_key r_id q))))"
    by (simp add: sorted_wrt_map)
  then show ?thesis
    by (simp add: distinct_rows_def order_by_desc_id_def sorted_wrt_rev)
qed

lemma filter_step:
  assumes "(case param of
              None \<Rightarrow> Inr q
            | Some qs \<Rightarrow>
                if qs = [] then Inr q
                else (case params_to_ints max_str_digits qs of
                        Inl e \<Rightarrow> Inl e
                      | Inr ids \<Rightarrow> Inr (filter_id_in lnks ids q))) = Inr q'"
  shows "set q' = {r \<in> set q. requested max_str_digits lnks param r}"
proof (cases param)
  case None
  with assms show ?thesis by (simp add: requested_def)
next
  case (Some qs)
  show ?thesis
  proof (cases "qs = []")
    case True
    with Some assms show ?thesis by (simp add: requested_def)
  next
    case False
    with Some assms obtain ids where "params_to_ints max_str_digits qs = Inr ids" "q' = filter_id_in lnks ids q"
      by (auto split: sum.splits)
    with Some False show ?thesis
      by (simp add: requested_def set_filter_id_in)
  qed
qed

lemma get_queryset_Inr:
  assumes "get_queryset max_str_digits d user tags ingredients = Inr result"
  shows "\<exists>q. result = distinct_rows (order_by_desc_id (filter_user user q)) \<and>
             set q = {r \<in> set (recipes d). requested max_str_digits (links (tag_table d)) tags r
                        \<and> requested max_str_digits (links (ingredient_table d)) ingredients r}"
proof -
  from assms obtain q1 q2 where
    1: "(case tags of
              None \<Rightarrow> Inr (recipes d)
            | Some qs \<Rightarrow>
                if qs = [] then Inr (recipes d)
                else (case params_to_ints max_str_digits qs of
                        Inl e \<Rightarrow> Inl e
                      | Inr ids \<Rightarrow> Inr (filter_id_in (links (tag_table d)) ids (recipes d)))) = Inr q1"
    and 2: "(case ingredients of
              None \<Rightarrow> Inr q1
            | Some qs \<Rightarrow>
                if qs = [] then Inr q1
                else (case params_to_ints max_str_digits qs of
                        Inl e \<Rightarrow> Inl e
                      | Inr ids \<Rightarrow> Inr (filter_id_in (links (ingredient_table d)) ids q1))) = Inr q2"
    and 3: "result = distinct_rows (order_by_desc_id (filter_user user q2))"
    unfolding get_queryset_def Let_def
    by (simp split: sum.splits)
  from filter_step[OF 1] filter_step[OF 2] have "set q2 = {r \<in> set (recipes d). requested max_str_digits (links (tag_table d)) tags r
                        \<and> requested max_str_digits (links (ingredient_table d)) ingredients r}"
    by auto
  with 3 show ?thesis by blast
qed

lemma ints_of_error: "ints_of max_str_digits ss = Inl e \<Longrightarrow> e = ValueError"
  by (induction ss arbitrary: e) (auto split: option.splits sum.splits)

lemma ints_of_Inl_iff: "(\<exists>e. ints_of max_str_digits ss = Inl e) \<longleftrightarrow> (\<exists>s \<in> set ss. py_int max_str_digits s = None)"
  by (induction ss) (auto split: option.splits sum.splits)

lemma ints_of_Inr_iff: "ints_of max_str_digits ss = Inr ids \<longleftrightarrow> map (py_int max_str_digits) ss = map Some ids"
proof (induction ss arbitrary: ids)
  case Nil
  then show ?case by auto
next
  case (Cons s ss)
  show ?case
  proof (cases "py_int max_str_digits s")
    case None
    then show ?thesis by (cases ids) auto
  next
    case (Some i)
    show ?thesis
    proof (cases "ints_of max_str_digits ss")
      case (Inl e)
      with Cons[of "tl ids"] Some show ?thesis by (cases ids) auto
    next
      case (Inr js)
      with Cons[of js] Cons[of "tl ids"] Some show ?thesis by (cases ids) auto
    qed
  qed
qed

subsection \<open>Claims about listing\<close>

text \<open>
  C1. Whatever the two filter parameters are, a list that \<open>get_queryset\<close> returns for a
  user holds only rows of the store whose owner is that user, and it holds every recipe of
  the user that the filters ask for.
\<close>

theorem list_only_own_recipes:
  assumes "get_queryset max_str_digits d user tags ingredients = Inr result"
  shows "(\<forall>r \<in> set result. r \<in> set (recipes d) \<and> r_user r = user) \<and>
         (\<forall>r \<in> set (recipes d).
            r_user r = user \<and> requested max_str_digits (links (tag_table d)) tags r
              \<and> requested max_str_digits (links (ingredient_table d)) ingredients r
            \<longrightarrow> r \<in> set result)"
proof -
  from get_queryset_Inr[OF assms] obtain q where
    "result = distinct_rows (order_by_desc_id (filter_user user q))"
    "set q = {r \<in> set (recipes d). requested max_str_digits (links (tag_table d)) tags r
                        \<and> requested max_str_digits (links (ingredient_table d)) ingredients r}"
    by blast
  then have "set result = {r \<in> set (recipes d). r_user r = user
                 \<and> requested max_str_digits (links (tag_table d)) tags r
                 \<and> requested max_str_digits (links (ingredient_table d)) ingredients r}"
    by (auto simp: set_finish)
  then show ?thesis by blast
qed

theorem list_only_own_recipes_witness:
  "get_queryset 4300 example_db 1 (Some ''1, 2,3'') None = Inr [recipe_2, recipe_1] \<and>
   r_user recipe_2 = 1 \<and> r_user recipe_1 = 1 \<and>
   r_user recipe_3 = 2 \<and> recipe_3 \<notin> set [recipe_2, recipe_1] \<and>
   requested 4300 (links (tag_table example_db)) (Some ''1, 2,3'') recipe_3"
proof -
  have h: "get_queryset 4300 example_db 1 (Some ''1, 2,3'') None = Inr [recipe_2, recipe_1]"
    by code_simp
  have a: "recipe_3 \<notin> set [recipe_2, recipe_1]" by code_simp
  have b: "r_user recipe_3 = 2" by code_simp
  have c: "requested 4300 (links (tag_table example_db)) (Some ''1, 2,3'') recipe_3" by code_simp
  from list_only_own_recipes[OF h] have "r_user recipe_2 = 1" "r_user recipe_1 = 1"
    by simp_all
  with h a b c show ?thesis by blast
qed

text \<open>
  C7. A list that \<open>get_queryset\<close> returns holds exactly the recipes of the caller that
  are linked to at least one identifier of the tags parameter and to at least one
  identifier of the ingredients parameter (each condition only when its parameter is
  given and not empty); no row comes twice, and the identifiers descend.
\<close>

theorem filtered_list_exact:
  assumes "get_queryset max_str_digits d user tags ingredients = Inr result"
  shows "set result = {r \<in> set (recipes d). r_user r = user
                 \<and> requested max_str_digits (links (tag_table d)) tags r
                 \<and> requested max_str_digits (links (ingredient_table d)) ingredients r}
         \<and> distinct result \<and> sorted (rev (map r_id result))"
proof -
  from get_queryset_Inr[OF assms] obtain q where
    r: "result = distinct_rows (order_by_desc_id (filter_user user q))"
    and q: "set q = {r \<in> set (recipes d). requested max_str_digits (links (tag_table d)) tags r
                        \<and> requested max_str_digits (links (ingredient_table d)) ingredients r}"
    by blast
  have "set result = {r \<in> set (recipes d). r_user r = user
                 \<and> requested max_str_digits (links (tag_table d)) tags r
                 \<and> requested max_str_digits (links (ingredient_table d)) ingredients r}"
    using r q by (auto simp: set_finish)
  moreover have "distinct result" using r by (simp add: distinct_finish)
  moreover have "sorted (rev (map r_id result))" using r by (simp add: sorted_finish)
  ultimately show ?thesis by blast
qed

theorem filtered_list_exact_witness:
  "get_queryset 4300 example_db 1 (Some ''1, 2'') (Some ''1'') = Inr [recipe_2] \<and>
   set [recipe_2] = {r \<in> set (recipes example_db). r_user r = 1
                 \<and> requested 4300 (links (tag_table example_db)) (Some ''1, 2'') r
                 \<and> requested 4300 (links (ingredient_table example_db)) (Some ''1'') r}
   \<and> distinct [recipe_2] \<and> sorted (rev (map r_id [recipe_2]))"
proof -
  have h: "get_queryset 4300 example_db 1 (Some ''1, 2'') (Some ''1'') = Inr [recipe_2]"
    by code_simp
  from filtered_list_exact[OF h] h show ?thesis by blast
qed

text \<open>
  C8, as amended. A parameter that is present and not empty is split at the commas and
  every segment goes through \<open>int\<close>. When a segment of either parameter is rejected, the
  request ends with an unhandled ValueError, a server error with status 500 and not a
  validation failure, and no list is returned. In every other case a list is returned. A
  parameter that is present but empty is treated as an absent one and is not parsed.
\<close>

theorem parse_failure_aborts:
  "(params_to_ints max_str_digits qs = Inr ids \<longleftrightarrow> map (py_int max_str_digits) (split_comma qs) = map Some ids)
   \<and> (rejected max_str_digits tags \<or> rejected max_str_digits ingredients \<longrightarrow>
      get_queryset max_str_digits d user tags ingredients = Inl ValueError \<and>
      list_recipes max_str_digits d user tags ingredients = (500, []))
   \<and> (\<not> rejected max_str_digits tags \<and> \<not> rejected max_str_digits ingredients \<longrightarrow>
      (\<exists>result. get_queryset max_str_digits d user tags ingredients = Inr result))
   \<and> get_queryset max_str_digits d user (Some []) ingredients
       = get_queryset max_str_digits d user None ingredients
   \<and> get_queryset max_str_digits d user tags (Some [])
       = get_queryset max_str_digits d user tags None"
proof -
  have empty: "get_queryset max_str_digits d user (Some []) ingredients
                 = get_queryset max_str_digits d user None ingredients"
    "get_queryset max_str_digits d user tags (Some [])
       = get_queryset max_str_digits d user tags None"
    by (simp_all add: get_queryset_def Let_def split: sum.splits)
  have parse: "params_to_ints max_str_digits qs = Inr ids \<longleftrightarrow> map (py_int max_str_digits) (split_comma qs) = map Some ids"
    by (simp add: params_to_ints_def ints_of_Inr_iff)
  have step: "\<And>param q lnks.
     (case param of
              None \<Rightarrow> Inr q
            | Some qs \<Rightarrow>
                if qs = [] then Inr q
                else (case params_to_ints max_str_digits qs of
                        Inl e \<Rightarrow> Inl e
                      | Inr ids \<Rightarrow> Inr (filter_id_in lnks ids q)))
     = (if rejected max_str_digits param then Inl ValueError
        else Inr (case param of None \<Rightarrow> q | Some qs \<Rightarrow> if qs = [] then q
             else filter_id_in lnks (case params_to_ints max_str_digits qs of Inr ids \<Rightarrow> ids | Inl e \<Rightarrow> []) q))"
    subgoal for param q lnks
      using ints_of_Inl_iff[of max_str_digits "split_comma (the param)"] ints_of_error[of max_str_digits "split_comma (the param)"]
      by (auto simp: rejected_def params_to_ints_def split: option.splits sum.splits)
    done
  have "(rejected max_str_digits tags \<or> rejected max_str_digits ingredients \<longrightarrow>
      get_queryset max_str_digits d user tags ingredients = Inl ValueError \<and>
      list_recipes max_str_digits d user tags ingredients = (500, []))
   \<and> (\<not> rejected max_str_digits tags \<and> \<not> rejected max_str_digits ingredients \<longrightarrow>
      (\<exists>result. get_queryset max_str_digits d user tags ingredients = Inr result))"
    unfolding get_queryset_def list_recipes_def Let_def step
    by (simp add: handle_exception_def)
  with parse empty show ?thesis by blast
qed

theorem parse_failure_aborts_witness:
  "rejected 4300 (Some ''1,x'') \<and>
   get_queryset 4300 example_db 1 (Some ''1,x'') None = Inl ValueError \<and>
   list_recipes 4300 example_db 1 (Some ''1,x'') None = (500, []) \<and>
   rejected 4300 (Some [CHR 0x1C, CHR ''1'']) \<and>
   get_queryset 4300 example_db 1 None (Some [CHR 0x1C, CHR ''1'']) = Inl ValueError \<and>
   \<not> rejected 4300 (Some ''1, 2'') \<and> \<not> rejected 4300 None \<and>
   (\<exists>result. get_queryset 4300 example_db 1 (Some ''1, 2'') None = Inr result) \<and>
   get_queryset 4300 example_db 1 (Some []) None = get_queryset 4300 example_db 1 None None"
proof -
  have a: "rejected 4300 (Some ''1,x'')" by code_simp
  have a': "rejected 4300 (Some [CHR 0x1C, CHR ''1''])" by code_simp
  have b: "\<not> rejected 4300 (Some ''1, 2'')" by code_simp
  have c: "\<not> rejected 4300 None" by code_simp
  from parse_failure_aborts[of 4300 _ _ "Some ''1,x''" None example_db 1] a
  have 1: "get_queryset 4300 example_db 1 (Some ''1,x'') None = Inl ValueError"
    "list_recipes 4300 example_db 1 (Some ''1,x'') None = (500, [])"
    by blast+
  from parse_failure_aborts[of 4300 _ _ None "Some [CHR 0x1C, CHR ''1'']" example_db 1] a'
  have 2: "get_queryset 4300 example_db 1 None (Some [CHR 0x1C, CHR ''1'']) = Inl ValueError"
    by blast
  from parse_failure_aborts[of 4300 _ _ "Some ''1, 2''" None example_db 1] b c
  have 3: "\<exists>result. get_queryset 4300 example_db 1 (Some ''1, 2'') None = Inr result"
    by blast
  from parse_failure_aborts[of 4300 _ _ None None example_db 1]
  have 4: "get_queryset 4300 example_db 1 (Some []) None = get_queryset 4300 example_db 1 None None"
    by blast
  from a a' b c 1 2 3 4 show ?thesis by blast
qed

text \<open>
  The claim as stated fails: the parameter \<open>tags=1,x\<close> ends the request with a
  ValueError and status 500, not with the status 400 of a validation failure; and the
  empty parameter \<open>tags=\<close>, whose one segment \<open>int\<close> rejects, is answered with the
  unfiltered list.
\<close>

theorem parse_failure_counterexample:
  "get_queryset 4300 example_db 1 (Some ''1,x'') None = Inl ValueError \<and>
   fst (list_recipes 4300 example_db 1 (Some ''1,x'') None) \<noteq> HTTP_400_BAD_REQUEST \<and>
   py_int 4300 '''' = None \<and>
   get_queryset 4300 example_db 1 (Some '''') None = Inr [recipe_4, recipe_2, recipe_1]"
  by code_simp

section \<open>Properties of get-or-create and of the serializer\<close>

lemma matching_append:
  "matching u n (xs @ ys) = matching u n xs @ matching u n ys"
  by (simp add: matching_def)

lemma matching_single:
  assumes "matching u n rs = [x]"
  shows "attr_user x = u \<and> attr_name x = n \<and> x \<in> set rs"
proof -
  have "x \<in> set (matching u n rs)" using assms by simp
  then show ?thesis by (simp add: matching_def)
qed

lemma get_or_create_none:
  "matching u n (rows t) = [] \<Longrightarrow>
   get_or_create u n t =
     Inr (\<lparr>attr_id = next_id t, attr_name = n, attr_user = u\<rparr>, True,
          t\<lparr>rows := rows t @ [\<lparr>attr_id = next_id t, attr_name = n, attr_user = u\<rparr>],
            next_id := next_id t + 1\<rparr>)"
  by (simp add: get_or_create_def Let_def)

lemma get_or_create_one:
  "matching u n (rows t) = [x] \<Longrightarrow> get_or_create u n t = Inr (x, False, t)"
  by (simp add: get_or_create_def)

lemma get_or_create_many:
  "2 \<le> length (matching u n (rows t)) \<Longrightarrow> get_or_create u n t = Inl MultipleObjectsReturned"
  by (cases "matching u n (rows t)"; cases "tl (matching u n (rows t))")
     (auto simp: get_or_create_def)

lemma get_or_create_error:
  "get_or_create u n t = Inl e \<Longrightarrow> e = MultipleObjectsReturned \<and> 2 \<le> length (matching u n (rows t))"
  by (auto simp: get_or_create_def Let_def split: list.splits)

lemma get_or_create_Inr:
  assumes "get_or_create u n t = Inr (obj, created, t')"
  shows "matching u n (rows t') = [obj]"
    and "links t' = links t"
    and "attr_user obj = u" and "attr_name obj = n"
    and "m \<noteq> n \<Longrightarrow> matching u m (rows t') = matching u m (rows t)"
    and "created \<Longrightarrow> matching u n (rows t) = [] \<and> rows t' = rows t @ [obj]"
    and "\<not> created \<Longrightarrow> matching u n (rows t) = [obj] \<and> t' = t"
proof -
  consider (none) "matching u n (rows t) = []"
    | (one) x where "matching u n (rows t) = [x]"
    | (many) "2 \<le> length (matching u n (rows t))"
    by (cases "matching u n (rows t)"; cases "tl (matching u n (rows t))") auto
  then have "matching u n (rows t') = [obj] \<and> links t' = links t \<and> attr_user obj = u \<and> attr_name obj = n
      \<and> (m \<noteq> n \<longrightarrow> matching u m (rows t') = matching u m (rows t))
      \<and> (created \<longrightarrow> matching u n (rows t) = [] \<and> rows t' = rows t @ [obj])
      \<and> (\<not> created \<longrightarrow> matching u n (rows t) = [obj] \<and> t' = t)"
  proof cases
    case none
    with assms get_or_create_none[OF none] show ?thesis
      by (auto simp: matching_append) (auto simp: matching_def)
  next
    case one
    with assms get_or_create_one[OF one] matching_single[OF one] show ?thesis
      by auto
  next
    case many
    with assms get_or_create_many[OF many] show ?thesis by simp
  qed
  then show "matching u n (rows t') = [obj]"
    and "links t' = links t"
    and "attr_user obj = u" and "attr_name obj = n"
    and "m \<noteq> n \<Longrightarrow> matching u m (rows t') = matching u m (rows t)"
    and "created \<Longrightarrow> matching u n (rows t) = [] \<and> rows t' = rows t @ [obj]"
    and "\<not> created \<Longrightarrow> matching u n (rows t) = [obj] \<and> t' = t"
    by blast+
qed

lemma rows_add_link [simp]: "rows (add_link rid cid t) = rows t"
  by (simp add: add_link_def)

lemma set_links_add_link [simp]: "set (links (add_link rid cid t)) = insert (rid, cid) (set (links t))"
  by (auto simp: add_link_def)

lemma add_link_present: "(rid, cid) \<in> set (links t) \<Longrightarrow> add_link rid cid t = t"
  by (simp add: add_link_def)

lemma distinct_add_link: "distinct (links t) \<Longrightarrow> distinct (links (add_link rid cid t))"
  by (simp add: add_link_def)

lemma loop_keeps_single:
  "matching u n (rows t) = [x] \<Longrightarrow>
   matching u n (rows (snd (get_or_create_attrs u ns r t))) = [x]"
proof (induction ns arbitrary: t)
  case Nil
  then show ?case by simp
next
  case (Cons m ns)
  show ?case
  proof (cases "get_or_create u m t")
    case (Inl e)
    with Cons.prems show ?thesis by simp
  next
    case (Inr res)
    obtain obj created t1 where res: "res = (obj, created, t1)" by (cases res)
    with Inr have g: "get_or_create u m t = Inr (obj, created, t1)" by simp
    have "matching u n (rows t1) = [x]"
    proof (cases "m = n")
      case True
      with Cons.prems get_or_create_one[of u n t x] Inr res show ?thesis by simp
    next
      case False
      with get_or_create_Inr(5)[OF g, of n] Inr res Cons.prems show ?thesis by simp
    qed
    then have "matching u n (rows (add_link (r_id r) (attr_id obj) t1)) = [x]" by simp
    from Cons.IH[OF this] Inr res show ?thesis by simp
  qed
qed

lemma loop_other_recipes:
  "{l \<in> set (links (snd (get_or_create_attrs u ns r t))). fst l \<noteq> r_id r}
     = {l \<in> set (links t). fst l \<noteq> r_id r}"
proof (induction ns arbitrary: t)
  case Nil
  then show ?case by simp
next
  case (Cons m ns)
  show ?case
  proof (cases "get_or_create u m t")
    case (Inl e)
    then show ?thesis by simp
  next
    case (Inr res)
    obtain obj created t1 where res: "res = (obj, created, t1)" by (cases res)
    with Inr have g: "get_or_create u m t = Inr (obj, created, t1)" by simp
    from get_or_create_Inr(2)[OF g] Inr res have "links t1 = links t" by simp
    with Cons.IH[of "add_link (r_id r) (attr_id obj) t1"] Inr res show ?thesis by auto
  qed
qed

lemma loop_distinct_links:
  "distinct (links t) \<Longrightarrow> distinct (links (snd (get_or_create_attrs u ns r t)))"
proof (induction ns arbitrary: t)
  case Nil
  then show ?case by simp
next
  case (Cons m ns)
  show ?case
  proof (cases "get_or_create u m t")
    case (Inl e)
    with Cons.prems show ?thesis by simp
  next
    case (Inr res)
    obtain obj created t1 where res: "res = (obj, created, t1)" by (cases res)
    with Inr have g: "get_or_create u m t = Inr (obj, created, t1)" by simp
    from get_or_create_Inr(2)[OF g] Inr res have "links t1 = links t" by simp
    with Cons.prems have "distinct (links (add_link (r_id r) (attr_id obj) t1))"
      by (simp add: distinct_add_link)
    from Cons.IH[OF this] Inr res show ?thesis by simp
  qed
qed

lemma loop_links_exact:
  "get_or_create_attrs u ns r t = (None, t') \<Longrightarrow>
   linked_ids t' (r_id r) = linked_ids t (r_id r) \<union> resolved u ns t'
   \<and> (\<forall>n \<in> set ns. \<exists>x. matching u n (rows t') = [x])"
proof (induction ns arbitrary: t)
  case Nil
  then show ?case by (simp add: resolved_def)
next
  case (Cons m ns)
  show ?case
  proof (cases "get_or_create u m t")
    case (Inl e)
    with Cons.prems show ?thesis by simp
  next
    case (Inr res)
    obtain obj created t1 where res: "res = (obj, created, t1)" by (cases res)
    with Inr have g: "get_or_create u m t = Inr (obj, created, t1)" by simp
    let ?t2 = "add_link (r_id r) (attr_id obj) t1"
    from Cons.prems Inr res have run: "get_or_create_attrs u ns r ?t2 = (None, t')" by simp
    from get_or_create_Inr(1,2)[OF g] Inr res
    have one: "matching u m (rows t1) = [obj]" and lk: "links t1 = links t" by simp_all
    from one have "matching u m (rows ?t2) = [obj]" by simp
    from loop_keeps_single[OF this, of ns r] run
    have final: "matching u m (rows t') = [obj]" by simp
    then have "set (matching u m (rows t')) = {obj}" by simp
    then have objs: "{x \<in> set (rows t'). attr_user x = u \<and> attr_name x = m} = {obj}"
      by (simp add: matching_def)
    have "resolved u (m # ns) t' = insert (attr_id obj) (resolved u ns t')"
    proof -
      have "{x \<in> set (rows t'). attr_user x = u \<and> attr_name x \<in> set (m # ns)}
            = {x \<in> set (rows t'). attr_user x = u \<and> attr_name x = m}
              \<union> {x \<in> set (rows t'). attr_user x = u \<and> attr_name x \<in> set ns}"
        by auto
      then show ?thesis unfolding resolved_def objs by (simp add: objs)
    qed
    moreover have "linked_ids ?t2 (r_id r) = insert (attr_id obj) (linked_ids t (r_id r))"
      using lk by (auto simp: linked_ids_def image_iff)
    ultimately show ?thesis using Cons.IH[OF run] final by auto
  qed
qed

lemma loop_skip_known:
  assumes "matching u n (rows t) = [x]" and "(r_id r, attr_id x) \<in> set (links t)"
  shows "get_or_create_attrs u ns r t = get_or_create_attrs u (filter (\<lambda>m. m \<noteq> n) ns) r t"
  using assms
proof (induction ns arbitrary: t)
  case Nil
  then show ?case by simp
next
  case (Cons m ns)
  show ?case
  proof (cases "m = n")
    case True
    from get_or_create_one[OF Cons.prems(1)] add_link_present[OF Cons.prems(2)] True
    have "get_or_create_attrs u (m # ns) r t = get_or_create_attrs u ns r t" by simp
    with Cons.IH[OF Cons.prems] True show ?thesis by simp
  next
    case False
    show ?thesis
    proof (cases "get_or_create u m t")
      case (Inl e)
      with False show ?thesis by simp
    next
      case (Inr res)
      obtain obj created t1 where res: "res = (obj, created, t1)" by (cases res)
    with Inr have g: "get_or_create u m t = Inr (obj, created, t1)" by simp
      let ?t2 = "add_link (r_id r) (attr_id obj) t1"
      from get_or_create_Inr(2)[OF g] get_or_create_Inr(5)[OF g, of n] False
      have "links t1 = links t" "matching u n (rows t1) = matching u n (rows t)" by simp_all
      with Cons.prems have "matching u n (rows ?t2) = [x]" "(r_id r, attr_id x) \<in> set (links ?t2)"
        by simp_all
      from Cons.IH[OF this] Inr res False show ?thesis by simp
    qed
  qed
qed

lemma loop_first_occurrences:
  "get_or_create_attrs u ns r t = get_or_create_attrs u (first_occurrences ns) r t"
proof (induction ns arbitrary: t rule: first_occurrences.induct)
  case 1
  then show ?case by simp
next
  case (2 n ns)
  show ?case
  proof (cases "get_or_create u n t")
    case (Inl e)
    then show ?thesis by simp
  next
    case (Inr res)
    obtain obj created t1 where res: "res = (obj, created, t1)" by (cases res)
    with Inr have g: "get_or_create u n t = Inr (obj, created, t1)" by simp
    let ?t2 = "add_link (r_id r) (attr_id obj) t1"
    from get_or_create_Inr(1)[OF g]
    have "matching u n (rows ?t2) = [obj]" by simp
    moreover have "(r_id r, attr_id obj) \<in> set (links ?t2)" by simp
    ultimately have "get_or_create_attrs u ns r ?t2
        = get_or_create_attrs u (filter (\<lambda>m. m \<noteq> n) ns) r ?t2"
      by (rule loop_skip_known)
    also have "\<dots> = get_or_create_attrs u (first_occurrences (filter (\<lambda>m. m \<noteq> n) ns)) r ?t2"
      by (rule "2.IH")
    finally show ?thesis using Inr res by simp
  qed
qed

lemma tags_step:
  "get_or_create_tags u ns r d =
     (fst (get_or_create_attrs u ns r (tag_table d)),
      d\<lparr>tag_table := snd (get_or_create_attrs u ns r (tag_table d))\<rparr>)"
  by (simp add: get_or_create_tags_def case_prod_beta)

lemma ingredients_step:
  "get_or_create_ingredients u ns r d =
     (fst (get_or_create_attrs u ns r (ingredient_table d)),
      d\<lparr>ingredient_table := snd (get_or_create_attrs u ns r (ingredient_table d))\<rparr>)"
  by (simp add: get_or_create_ingredients_def case_prod_beta)

lemma save_tables [simp]:
  "tag_table (save i d) = tag_table d"
  "ingredient_table (save i d) = ingredient_table d"
  "next_recipe_id (save i d) = next_recipe_id d"
  by (simp_all add: save_def)

lemma update_tag_table:
  "tag_table (snd (update u inst vd d)) =
     (case vd_tags vd of
        None \<Rightarrow> tag_table d
      | Some ns \<Rightarrow> snd (get_or_create_attrs u ns inst (clear_links (r_id inst) (tag_table d))))"
  by (simp add: update_def tags_step ingredients_step Let_def split: option.splits prod.splits)

lemma update_ingredient_table_absent:
  "vd_ingredients vd = None \<Longrightarrow> ingredient_table (snd (update u inst vd d)) = ingredient_table d"
  by (simp add: update_def tags_step Let_def split: option.splits prod.splits)

lemma update_Inr:
  assumes "update u inst vd d = (Inr inst', d')"
  shows "(\<forall>ns. vd_tags vd = Some ns \<longrightarrow>
            get_or_create_attrs u ns inst (clear_links (r_id inst) (tag_table d)) = (None, tag_table d'))"
    and "(\<forall>ns. vd_ingredients vd = Some ns \<longrightarrow>
            get_or_create_attrs u ns inst (clear_links (r_id inst) (ingredient_table d)) = (None, ingredient_table d'))"
    and "inst' = set_attrs (vd\<lparr>vd_tags := None, vd_ingredients := None\<rparr>) inst"
    and "recipes d' = recipes (save inst' d)"
  using assms
  by (auto simp: update_def tags_step ingredients_step Let_def save_def
           split: option.splits prod.splits intro: prod_eqI)

lemma update_Inl:
  assumes "update u inst vd d = (Inl e, d')"
  shows "recipes d' = recipes d"
  using assms
  by (auto simp: update_def tags_step ingredients_step Let_def split: option.splits prod.splits)

lemma linked_ids_clear [simp]: "linked_ids (clear_links rid t) rid = {}"
  by (auto simp: linked_ids_def clear_links_def)

lemma objects_create_Inr:
  assumes "objects_create vd d = Inr (r, d1)"
  shows "d1 = d\<lparr>recipes := recipes d @ [r], next_recipe_id := next_recipe_id d + 1\<rparr>"
    and "r_id r = next_recipe_id d"
    and "vd_user vd = Some (r_user r)"
proof -
  from assms obtain u m p where "vd_user vd = Some u" "vd_time_minutes vd = Some m" "vd_price vd = Some p"
    by (cases "vd_user vd"; cases "vd_time_minutes vd"; cases "vd_price vd")
       (simp_all add: objects_create_def)
  with assms show "d1 = d\<lparr>recipes := recipes d @ [r], next_recipe_id := next_recipe_id d + 1\<rparr>"
    and "r_id r = next_recipe_id d"
    and "vd_user vd = Some (r_user r)"
    by (auto simp: objects_create_def Let_def)
qed

lemma create_Inr:
  assumes "create u vd d = (Inr r, d')"
  shows "recipes d' = recipes d @ [r]"
    and "vd_user vd = Some (r_user r)"
    and "r_id r = next_recipe_id d"
    and "get_or_create_attrs u (case vd_tags vd of None \<Rightarrow> [] | Some ns \<Rightarrow> ns) r (tag_table d)
           = (None, tag_table d')"
    and "get_or_create_attrs u (case vd_ingredients vd of None \<Rightarrow> [] | Some ns \<Rightarrow> ns) r (ingredient_table d)
           = (None, ingredient_table d')"
proof -
  let ?vd = "vd\<lparr>vd_tags := None, vd_ingredients := None\<rparr>"
  let ?tags = "case vd_tags vd of None \<Rightarrow> [] | Some ns \<Rightarrow> ns"
  let ?ingredients = "case vd_ingredients vd of None \<Rightarrow> [] | Some ns \<Rightarrow> ns"
  from assms obtain r0 d1 where oc: "objects_create ?vd d = Inr (r0, d1)"
    by (cases "objects_create ?vd d") (auto simp: create_def Let_def)
  let ?l1 = "get_or_create_attrs u ?tags r0 (tag_table d1)"
  let ?d2 = "d1\<lparr>tag_table := snd ?l1\<rparr>"
  let ?l2 = "get_or_create_attrs u ?ingredients r0 (ingredient_table d1)"
  have c: "create u vd d =
       (case fst ?l1 of
          Some e \<Rightarrow> (Inl e, ?d2)
        | None \<Rightarrow> (case fst ?l2 of
                     Some e \<Rightarrow> (Inl e, ?d2\<lparr>ingredient_table := snd ?l2\<rparr>)
                   | None \<Rightarrow> (Inr r0, ?d2\<lparr>ingredient_table := snd ?l2\<rparr>)))"
    using oc by (simp add: create_def Let_def tags_step ingredients_step split: option.splits)
  from assms c have f1: "fst ?l1 = None" and f2: "fst ?l2 = None"
    and r: "r = r0" and d': "d' = ?d2\<lparr>ingredient_table := snd ?l2\<rparr>"
    by (auto split: option.splits)
  from objects_create_Inr[OF oc] have d1: "d1 = d\<lparr>recipes := recipes d @ [r0], next_recipe_id := next_recipe_id d + 1\<rparr>"
    and id: "r_id r0 = next_recipe_id d" and us: "vd_user ?vd = Some (r_user r0)"
    by blast+
  show "recipes d' = recipes d @ [r]" using d' d1 r by simp
  show "vd_user vd = Some (r_user r)" using us r by simp
  show "r_id r = next_recipe_id d" using id r by simp
  have "?l1 = (None, snd ?l1)" using f1 by (metis prod.collapse)
  then show "get_or_create_attrs u ?tags r (tag_table d) = (None, tag_table d')"
    using d' d1 r by simp
  have "?l2 = (None, snd ?l2)" using f2 by (metis prod.collapse)
  then show "get_or_create_attrs u ?ingredients r (ingredient_table d) = (None, ingredient_table d')"
    using d' d1 r by simp
qed

lemma set_attrs_keeps:
  "vd_user vd = None \<Longrightarrow> r_user (set_attrs vd inst) = r_user inst"
  "r_id (set_attrs vd inst) = r_id inst"
  by (simp_all add: set_attrs_def)

lemma save_owners:
  assumes "inst \<in> set (recipes d)" and "distinct (map r_id (recipes d))"
    and "r_id inst' = r_id inst" and "r_user inst' = r_user inst"
  shows "map (\<lambda>r. (r_id r, r_user r)) (recipes (save inst' d)) = map (\<lambda>r. (r_id r, r_user r)) (recipes d)"
proof -
  have eq: "r = inst" if "r \<in> set (recipes d)" "r_id r = r_id inst" for r
    using that assms(1,2) by (auto simp: distinct_map dest: inj_onD)
  have "r_id inst' \<in> r_id ` set (recipes d)" using assms(1,3) by force
  then have "recipes (save inst' d) = map (\<lambda>r. if r_id r = r_id inst' then inst' else r) (recipes d)"
    by (simp add: save_def)
  then show ?thesis using eq assms(3,4) by (auto simp: map_eq_conv)
qed

lemma count_list_distinct: "distinct xs \<Longrightarrow> x \<in> set xs \<Longrightarrow> count_list xs x = 1"
  by (induction xs) (auto simp: count_list_0_iff)

lemma step_counts:
  assumes "get_or_create u m t = Inr (obj, created, t1)"
  shows "(length (matching u n (rows t1)) \<le> 1) = (length (matching u n (rows t)) \<le> 1)"
proof (cases "n = m")
  case True
  have "\<not> 2 \<le> length (matching u m (rows t))"
    using get_or_create_many[of u m t] assms by auto
  with get_or_create_Inr(1)[OF assms] True show ?thesis by simp
next
  case False
  with get_or_create_Inr(5)[OF assms, of n] show ?thesis by simp
qed

lemma loop_fst:
  "fst (get_or_create_attrs u ns r t)
     = (if unambiguous u ns t then None else Some MultipleObjectsReturned)"
proof (induction ns arbitrary: t)
  case Nil
  then show ?case by (simp add: unambiguous_def)
next
  case (Cons m ns)
  show ?case
  proof (cases "get_or_create u m t")
    case (Inl e)
    from get_or_create_error[OF Inl] Inl show ?thesis
      by (auto simp: unambiguous_def)
  next
    case (Inr res)
    obtain obj created t1 where res: "res = (obj, created, t1)" by (cases res)
    with Inr have g: "get_or_create u m t = Inr (obj, created, t1)" by simp
    have m: "length (matching u m (rows t)) \<le> 1"
      using get_or_create_many[of u m t] g by (cases "2 \<le> length (matching u m (rows t))") auto
    have "unambiguous u ns (add_link (r_id r) (attr_id obj) t1) = unambiguous u ns t"
      using step_counts[OF g] by (simp add: unambiguous_def)
    with m have "unambiguous u (m # ns) t = unambiguous u ns (add_link (r_id r) (attr_id obj) t1)"
      by (simp add: unambiguous_def)
    with Cons.IH[of "add_link (r_id r) (attr_id obj) t1"] g show ?thesis by simp
  qed
qed

lemma loop_processed:
  "snd (get_or_create_attrs u ns r t) = snd (get_or_create_attrs u (processed u ns t) r t)"
proof (induction ns arbitrary: t)
  case Nil
  then show ?case by (simp add: processed_def)
next
  case (Cons m ns)
  show ?case
  proof (cases "get_or_create u m t")
    case (Inl e)
    from get_or_create_error[OF Inl] have "processed u (m # ns) t = []"
      by (simp add: processed_def)
    with Inl show ?thesis by simp
  next
    case (Inr res)
    obtain obj created t1 where res: "res = (obj, created, t1)" by (cases res)
    with Inr have g: "get_or_create u m t = Inr (obj, created, t1)" by simp
    let ?t2 = "add_link (r_id r) (attr_id obj) t1"
    have m: "length (matching u m (rows t)) \<le> 1"
      using get_or_create_many[of u m t] g by (cases "2 \<le> length (matching u m (rows t))") auto
    have same: "processed u ns ?t2 = processed u ns t"
      unfolding processed_def using step_counts[OF g] by (intro takeWhile_cong) simp_all
    from m have "processed u (m # ns) t = m # processed u ns t"
      by (simp add: processed_def)
    with Cons.IH[of ?t2] same g show ?thesis by simp
  qed
qed

lemma unambiguous_processed: "unambiguous u (processed u ns t) t"
  by (auto simp: unambiguous_def processed_def dest: set_takeWhileD)

lemma processed_all: "unambiguous u ns t \<Longrightarrow> processed u ns t = ns"
  by (simp add: unambiguous_def processed_def)

lemma unambiguous_clear [simp]: "unambiguous u ns (clear_links rid t) = unambiguous u ns t"
  by (simp add: unambiguous_def clear_links_def)

lemma processed_clear [simp]: "processed u ns (clear_links rid t) = processed u ns t"
  by (simp add: processed_def clear_links_def)

lemma loop_result:
  assumes "t' = snd (get_or_create_attrs u ns r t)"
  shows "linked_ids t' (r_id r) = linked_ids t (r_id r) \<union> resolved u (processed u ns t) t'"
    and "\<forall>n \<in> set (processed u ns t). \<exists>x. matching u n (rows t') = [x]"
proof -
  let ?ps = "processed u ns t"
  have "fst (get_or_create_attrs u ?ps r t) = None"
    using loop_fst[of u ?ps r t] unambiguous_processed[of u ns t] by simp
  moreover have "snd (get_or_create_attrs u ?ps r t) = t'"
    using assms loop_processed[of u ns r t] by simp
  ultimately have "get_or_create_attrs u ?ps r t = (None, t')"
    by (metis prod.collapse)
  from loop_links_exact[OF this]
  show "linked_ids t' (r_id r) = linked_ids t (r_id r) \<union> resolved u (processed u ns t) t'"
    and "\<forall>n \<in> set (processed u ns t). \<exists>x. matching u n (rows t') = [x]"
    by blast+
qed

lemma loop_keeps_ambiguous:
  "2 \<le> length (matching u n (rows t)) \<Longrightarrow>
   matching u n (rows (snd (get_or_create_attrs u ns r t))) = matching u n (rows t)"
proof (induction ns arbitrary: t)
  case Nil
  then show ?case by simp
next
  case (Cons m ns)
  show ?case
  proof (cases "get_or_create u m t")
    case (Inl e)
    then show ?thesis by simp
  next
    case (Inr res)
    obtain obj created t1 where res: "res = (obj, created, t1)" by (cases res)
    with Inr have g: "get_or_create u m t = Inr (obj, created, t1)" by simp
    have "m \<noteq> n" using get_or_create_many[of u m t] g Cons.prems by auto
    then have eq: "matching u n (rows (add_link (r_id r) (attr_id obj) t1)) = matching u n (rows t)"
      using get_or_create_Inr(5)[OF g, of n] by simp
    with Cons.prems Cons.IH[of "add_link (r_id r) (attr_id obj) t1"] g show ?thesis by simp
  qed
qed

lemma loop_one_row_linked_once:
  assumes "unambiguous u ns t" and "n \<in> set ns" and "distinct (links t)"
  shows "one_row_linked_once u n (r_id r) (snd (get_or_create_attrs u ns r t))"
proof -
  let ?t' = "snd (get_or_create_attrs u ns r t)"
  from loop_result[of ?t' u ns r t] processed_all[OF assms(1)] assms(2)
  obtain x where x: "matching u n (rows ?t') = [x]"
    and l: "linked_ids ?t' (r_id r) = linked_ids t (r_id r) \<union> resolved u ns ?t'"
    by auto
  from matching_single[OF x] assms(2) have "attr_id x \<in> resolved u ns ?t'"
    by (auto simp: resolved_def)
  with l have "(r_id r, attr_id x) \<in> set (links ?t')"
    by (auto simp: linked_ids_def)
  with loop_distinct_links[OF assms(3), of u ns r]
  have "count_list (links ?t') (r_id r, attr_id x) = 1"
    by (simp add: count_list_distinct)
  with x show ?thesis by (simp add: one_row_linked_once_def)
qed

lemma update_fst:
  "fst (update u inst vd d)
     = (if key_ok u (vd_tags vd) (tag_table d) \<and> key_ok u (vd_ingredients vd) (ingredient_table d)
        then Inr (set_attrs (vd\<lparr>vd_tags := None, vd_ingredients := None\<rparr>) inst)
        else Inl MultipleObjectsReturned)"
proof -
  have l: "\<And>ns t. fst (get_or_create_attrs u ns inst (clear_links (r_id inst) t))
             = (if unambiguous u ns t then None else Some MultipleObjectsReturned)"
    by (simp add: loop_fst)
  show ?thesis
    by (cases "vd_tags vd"; cases "vd_ingredients vd")
       (simp_all add: update_def tags_step ingredients_step Let_def l key_ok_def)
qed

lemma update_ingredient_table:
  "ingredient_table (snd (update u inst vd d))
     = (if key_ok u (vd_tags vd) (tag_table d)
        then (case vd_ingredients vd of
                None \<Rightarrow> ingredient_table d
              | Some ns \<Rightarrow>
                  snd (get_or_create_attrs u ns inst (clear_links (r_id inst) (ingredient_table d))))
        else ingredient_table d)"
proof -
  have l: "\<And>ns t. fst (get_or_create_attrs u ns inst (clear_links (r_id inst) t))
             = (if unambiguous u ns t then None else Some MultipleObjectsReturned)"
    by (simp add: loop_fst)
  show ?thesis
    by (cases "vd_tags vd"; cases "vd_ingredients vd")
       (simp_all add: update_def tags_step ingredients_step Let_def l key_ok_def)
qed

lemma update_recipes_on_error:
  "\<not> (key_ok u (vd_tags vd) (tag_table d) \<and> key_ok u (vd_ingredients vd) (ingredient_table d)) \<Longrightarrow>
   recipes (snd (update u inst vd d)) = recipes d"
proof -
  assume a: "\<not> (key_ok u (vd_tags vd) (tag_table d) \<and> key_ok u (vd_ingredients vd) (ingredient_table d))"
  obtain res d' where r: "update u inst vd d = (res, d')" by (cases "update u inst vd d")
  with update_fst[of u inst vd d] a have "res = Inl MultipleObjectsReturned" by simp
  with r update_Inl[of u inst vd d MultipleObjectsReturned d'] show ?thesis by simp
qed

lemma objects_create_error: "objects_create vd d = Inl e \<Longrightarrow> e = IntegrityError"
  by (auto simp: objects_create_def Let_def split: option.splits)

lemma create_outcome:
  assumes "fst (create u vd d) \<noteq> Inl IntegrityError"
  obtains r0 where "r_id r0 = next_recipe_id d"
    and "tag_table (snd (create u vd d))
           = snd (get_or_create_attrs u (case vd_tags vd of None \<Rightarrow> [] | Some ns \<Rightarrow> ns) r0 (tag_table d))"
    and "ingredient_table (snd (create u vd d))
           = (if unambiguous u (case vd_tags vd of None \<Rightarrow> [] | Some ns \<Rightarrow> ns) (tag_table d)
              then snd (get_or_create_attrs u (case vd_ingredients vd of None \<Rightarrow> [] | Some ns \<Rightarrow> ns) r0
                          (ingredient_table d))
              else ingredient_table d)"
    and "fst (create u vd d)
           = (if unambiguous u (case vd_tags vd of None \<Rightarrow> [] | Some ns \<Rightarrow> ns) (tag_table d)
                \<and> unambiguous u (case vd_ingredients vd of None \<Rightarrow> [] | Some ns \<Rightarrow> ns) (ingredient_table d)
              then Inr r0 else Inl MultipleObjectsReturned)"
proof -
  let ?vd = "vd\<lparr>vd_tags := None, vd_ingredients := None\<rparr>"
  let ?tags = "case vd_tags vd of None \<Rightarrow> [] | Some ns \<Rightarrow> ns"
  let ?ingredients = "case vd_ingredients vd of None \<Rightarrow> [] | Some ns \<Rightarrow> ns"
  obtain r0 d1 where oc: "objects_create ?vd d = Inr (r0, d1)"
  proof (cases "objects_create ?vd d")
    case (Inl e)
    with objects_create_error[OF Inl] have "create u vd d = (Inl IntegrityError, d)"
      by (simp add: create_def Let_def)
    with assms show ?thesis by simp
  next
    case (Inr p)
    with that show ?thesis by (cases p) auto
  qed
  from objects_create_Inr[OF oc]
  have d1: "d1 = d\<lparr>recipes := recipes d @ [r0], next_recipe_id := next_recipe_id d + 1\<rparr>"
    and id: "r_id r0 = next_recipe_id d"
    by blast+
  let ?l1 = "get_or_create_attrs u ?tags r0 (tag_table d)"
  let ?l2 = "get_or_create_attrs u ?ingredients r0 (ingredient_table d)"
  let ?d2 = "d1\<lparr>tag_table := snd ?l1\<rparr>"
  have c: "create u vd d =
       (case fst ?l1 of
          Some e \<Rightarrow> (Inl e, ?d2)
        | None \<Rightarrow> (case fst ?l2 of
                     Some e \<Rightarrow> (Inl e, ?d2\<lparr>ingredient_table := snd ?l2\<rparr>)
                   | None \<Rightarrow> (Inr r0, ?d2\<lparr>ingredient_table := snd ?l2\<rparr>)))"
    using oc d1 by (simp add: create_def Let_def tags_step ingredients_step split: option.splits)
  have t: "tag_table (snd (create u vd d)) = snd ?l1"
    unfolding c by (simp split: option.splits)
  have i: "ingredient_table (snd (create u vd d))
           = (if unambiguous u ?tags (tag_table d) then snd ?l2 else ingredient_table d)"
    unfolding c using d1 by (simp add: loop_fst split: option.splits)
  have f: "fst (create u vd d)
           = (if unambiguous u ?tags (tag_table d) \<and> unambiguous u ?ingredients (ingredient_table d)
              then Inr r0 else Inl MultipleObjectsReturned)"
    unfolding c by (simp add: loop_fst split: option.splits)
  from that[OF id t i f] show ?thesis .
qed

lemma key_ok_alt:
  "key_ok u k t = unambiguous u (case k of None \<Rightarrow> [] | Some ns \<Rightarrow> ns) t"
  by (cases k) (simp_all add: key_ok_def unambiguous_def)

lemma rows_clear_links [simp]: "rows (clear_links rid t) = rows t"
  by (simp add: clear_links_def)

lemma distinct_clear_links: "distinct (links t) \<Longrightarrow> distinct (links (clear_links rid t))"
  by (simp add: clear_links_def)

lemma one_row_clear:
  assumes "unambiguous u ns t" and "n \<in> set ns" and "distinct (links t)"
  shows "one_row_linked_once u n (r_id r) (snd (get_or_create_attrs u ns r (clear_links (r_id r) t)))"
  using loop_one_row_linked_once[of u ns "clear_links (r_id r) t" n r] assms
  by (simp add: distinct_clear_links)

lemma create_integrity:
  assumes "fst (create u vd d) = Inl IntegrityError"
  shows "snd (create u vd d) = d"
proof (cases "objects_create (vd\<lparr>vd_tags := None, vd_ingredients := None\<rparr>) d")
  case (Inl e)
  then show ?thesis by (simp add: create_def Let_def)
next
  case (Inr p)
  obtain r0 d1 where p: "p = (r0, d1)" by (cases p)
  let ?l1 = "get_or_create_attrs u (case vd_tags vd of None \<Rightarrow> [] | Some ns \<Rightarrow> ns) r0 (tag_table d1)"
  let ?d2 = "d1\<lparr>tag_table := snd ?l1\<rparr>"
  let ?l2 = "get_or_create_attrs u (case vd_ingredients vd of None \<Rightarrow> [] | Some ns \<Rightarrow> ns) r0
               (ingredient_table d1)"
  have "create u vd d =
       (case fst ?l1 of
          Some e \<Rightarrow> (Inl e, ?d2)
        | None \<Rightarrow> (case fst ?l2 of
                     Some e \<Rightarrow> (Inl e, ?d2\<lparr>ingredient_table := snd ?l2\<rparr>)
                   | None \<Rightarrow> (Inr r0, ?d2\<lparr>ingredient_table := snd ?l2\<rparr>)))"
    using Inr p by (simp add: create_def Let_def tags_step ingredients_step split: option.splits)
  then have "fst (create u vd d) \<noteq> Inl IntegrityError"
    by (simp add: loop_fst split: option.splits)
  with assms show ?thesis by simp
qed

subsection \<open>Claims about create and update\<close>

text \<open>
  C2, as amended. An update that carries the tags key first removes every tag link of the
  recipe and then processes the specs in order. When the caller has at most one tag of each
  name of the list, the tags linked to the recipe afterwards are exactly the rows resolved
  from the list, one row for each name: a list replaces the set, and the empty list leaves
  no link. When the caller has several tags of some name of the list, the lookup of that
  name raises MultipleObjectsReturned: the update ends there, the recipe keeps only the
  links of the specs before that name, the ingredients key is not processed even when it is
  present, and the recipe is not saved. The same holds for the ingredients key, which is
  processed only when the tags key did not raise. The update returns when neither key
  raises.
\<close>

theorem update_links_outcome:
  assumes "update auth_user instance validated_data d = (res, d')"
  shows
   "(\<forall>names. vd_tags validated_data = Some names \<longrightarrow>
        linked_ids (tag_table d') (r_id instance)
          = resolved auth_user (processed auth_user names (tag_table d)) (tag_table d')
      \<and> (unambiguous auth_user names (tag_table d) \<longrightarrow>
           linked_ids (tag_table d') (r_id instance) = resolved auth_user names (tag_table d')
           \<and> (\<forall>n \<in> set names. \<exists>x. matching auth_user n (rows (tag_table d')) = [x]))
      \<and> (\<not> unambiguous auth_user names (tag_table d) \<longrightarrow>
           res = Inl MultipleObjectsReturned \<and> ingredient_table d' = ingredient_table d
           \<and> recipes d' = recipes d))
    \<and> (\<forall>names. vd_ingredients validated_data = Some names
                \<and> key_ok auth_user (vd_tags validated_data) (tag_table d) \<longrightarrow>
        linked_ids (ingredient_table d') (r_id instance)
          = resolved auth_user (processed auth_user names (ingredient_table d)) (ingredient_table d')
      \<and> (unambiguous auth_user names (ingredient_table d) \<longrightarrow>
           linked_ids (ingredient_table d') (r_id instance)
             = resolved auth_user names (ingredient_table d')
           \<and> (\<forall>n \<in> set names. \<exists>x. matching auth_user n (rows (ingredient_table d')) = [x]))
      \<and> (\<not> unambiguous auth_user names (ingredient_table d) \<longrightarrow>
           res = Inl MultipleObjectsReturned \<and> recipes d' = recipes d))
    \<and> (vd_tags validated_data = Some [] \<longrightarrow> linked_ids (tag_table d') (r_id instance) = {})
    \<and> (vd_ingredients validated_data = Some []
          \<and> key_ok auth_user (vd_tags validated_data) (tag_table d) \<longrightarrow>
        linked_ids (ingredient_table d') (r_id instance) = {})
    \<and> (key_ok auth_user (vd_tags validated_data) (tag_table d)
          \<and> key_ok auth_user (vd_ingredients validated_data) (ingredient_table d) \<longrightarrow>
        (\<exists>instance'. res = Inr instance'))"
proof -
  let ?rid = "r_id instance"
  from assms have res: "res = fst (update auth_user instance validated_data d)"
    and d': "d' = snd (update auth_user instance validated_data d)"
    by simp_all
  have tags: "linked_ids (tag_table d') ?rid
          = resolved auth_user (processed auth_user names (tag_table d)) (tag_table d')
      \<and> (unambiguous auth_user names (tag_table d) \<longrightarrow>
           linked_ids (tag_table d') ?rid = resolved auth_user names (tag_table d')
           \<and> (\<forall>n \<in> set names. \<exists>x. matching auth_user n (rows (tag_table d')) = [x]))
      \<and> (\<not> unambiguous auth_user names (tag_table d) \<longrightarrow>
           res = Inl MultipleObjectsReturned \<and> ingredient_table d' = ingredient_table d
           \<and> recipes d' = recipes d)"
    if k: "vd_tags validated_data = Some names" for names
  proof -
    let ?t0 = "clear_links ?rid (tag_table d)"
    have t: "tag_table d' = snd (get_or_create_attrs auth_user names instance ?t0)"
      unfolding d' by (simp add: update_tag_table k)
    from loop_result[OF t]
    have a: "linked_ids (tag_table d') ?rid
               = resolved auth_user (processed auth_user names (tag_table d)) (tag_table d')"
      and b: "\<forall>n \<in> set (processed auth_user names (tag_table d)).
                \<exists>x. matching auth_user n (rows (tag_table d')) = [x]"
      by simp_all
    have c: "res = Inl MultipleObjectsReturned \<and> ingredient_table d' = ingredient_table d
           \<and> recipes d' = recipes d"
      if "\<not> unambiguous auth_user names (tag_table d)"
      unfolding res d' using that k
      by (simp add: update_fst update_ingredient_table update_recipes_on_error key_ok_def)
    from a b c show ?thesis by (auto simp: processed_all)
  qed
  have ingredients: "linked_ids (ingredient_table d') ?rid
          = resolved auth_user (processed auth_user names (ingredient_table d)) (ingredient_table d')
      \<and> (unambiguous auth_user names (ingredient_table d) \<longrightarrow>
           linked_ids (ingredient_table d') ?rid = resolved auth_user names (ingredient_table d')
           \<and> (\<forall>n \<in> set names. \<exists>x. matching auth_user n (rows (ingredient_table d')) = [x]))
      \<and> (\<not> unambiguous auth_user names (ingredient_table d) \<longrightarrow>
           res = Inl MultipleObjectsReturned \<and> recipes d' = recipes d)"
    if k: "vd_ingredients validated_data = Some names"
      and ok: "key_ok auth_user (vd_tags validated_data) (tag_table d)" for names
  proof -
    let ?t0 = "clear_links ?rid (ingredient_table d)"
    have t: "ingredient_table d' = snd (get_or_create_attrs auth_user names instance ?t0)"
      unfolding d' by (simp add: update_ingredient_table k ok)
    from loop_result[OF t]
    have a: "linked_ids (ingredient_table d') ?rid
               = resolved auth_user (processed auth_user names (ingredient_table d)) (ingredient_table d')"
      and b: "\<forall>n \<in> set (processed auth_user names (ingredient_table d)).
                \<exists>x. matching auth_user n (rows (ingredient_table d')) = [x]"
      by simp_all
    have c: "res = Inl MultipleObjectsReturned \<and> recipes d' = recipes d"
      if "\<not> unambiguous auth_user names (ingredient_table d)"
      unfolding res d' using that k
      by (simp add: update_fst update_recipes_on_error key_ok_def)
    from a b c show ?thesis by (auto simp: processed_all)
  qed
  have e: "unambiguous auth_user [] t" "resolved auth_user [] t = {}" for t
    by (simp_all add: unambiguous_def resolved_def)
  have empty_tags: "linked_ids (tag_table d') ?rid = {}" if k: "vd_tags validated_data = Some []"
  proof -
    from tags[OF k] e(1)[of "tag_table d"]
    have "linked_ids (tag_table d') ?rid = resolved auth_user [] (tag_table d')" by blast
    then show ?thesis by (simp only: e(2))
  qed
  have empty_ingredients: "linked_ids (ingredient_table d') ?rid = {}"
    if k: "vd_ingredients validated_data = Some []"
      and ok: "key_ok auth_user (vd_tags validated_data) (tag_table d)"
  proof -
    from ingredients[OF k ok] e(1)[of "ingredient_table d"]
    have "linked_ids (ingredient_table d') ?rid = resolved auth_user [] (ingredient_table d')"
      by blast
    then show ?thesis by (simp only: e(2))
  qed
  have returns: "\<exists>instance'. res = Inr instance'"
    if "key_ok auth_user (vd_tags validated_data) (tag_table d)"
      and "key_ok auth_user (vd_ingredients validated_data) (ingredient_table d)"
    unfolding res using that by (simp add: update_fst)
  have T: "\<forall>names. vd_tags validated_data = Some names \<longrightarrow>
        linked_ids (tag_table d') (r_id instance)
          = resolved auth_user (processed auth_user names (tag_table d)) (tag_table d')
      \<and> (unambiguous auth_user names (tag_table d) \<longrightarrow>
           linked_ids (tag_table d') (r_id instance) = resolved auth_user names (tag_table d')
           \<and> (\<forall>n \<in> set names. \<exists>x. matching auth_user n (rows (tag_table d')) = [x]))
      \<and> (\<not> unambiguous auth_user names (tag_table d) \<longrightarrow>
           res = Inl MultipleObjectsReturned \<and> ingredient_table d' = ingredient_table d
           \<and> recipes d' = recipes d)"
    using tags by (intro allI impI)
  have I: "\<forall>names. vd_ingredients validated_data = Some names
                \<and> key_ok auth_user (vd_tags validated_data) (tag_table d) \<longrightarrow>
        linked_ids (ingredient_table d') (r_id instance)
          = resolved auth_user (processed auth_user names (ingredient_table d)) (ingredient_table d')
      \<and> (unambiguous auth_user names (ingredient_table d) \<longrightarrow>
           linked_ids (ingredient_table d') (r_id instance)
             = resolved auth_user names (ingredient_table d')
           \<and> (\<forall>n \<in> set names. \<exists>x. matching auth_user n (rows (ingredient_table d')) = [x]))
      \<and> (\<not> unambiguous auth_user names (ingredient_table d) \<longrightarrow>
           res = Inl MultipleObjectsReturned \<and> recipes d' = recipes d)"
  proof (intro allI impI)
    fix names
    assume "vd_ingredients validated_data = Some names
                \<and> key_ok auth_user (vd_tags validated_data) (tag_table d)"
    then have "vd_ingredients validated_data = Some names"
      and "key_ok auth_user (vd_tags validated_data) (tag_table d)" by simp_all
    then show "linked_ids (ingredient_table d') (r_id instance)
          = resolved auth_user (processed auth_user names (ingredient_table d)) (ingredient_table d')
      \<and> (unambiguous auth_user names (ingredient_table d) \<longrightarrow>
           linked_ids (ingredient_table d') (r_id instance)
             = resolved auth_user names (ingredient_table d')
           \<and> (\<forall>n \<in> set names. \<exists>x. matching auth_user n (rows (ingredient_table d')) = [x]))
      \<and> (\<not> unambiguous auth_user names (ingredient_table d) \<longrightarrow>
           res = Inl MultipleObjectsReturned \<and> recipes d' = recipes d)"
      by (rule ingredients)
  qed
  have E1: "vd_tags validated_data = Some [] \<longrightarrow> linked_ids (tag_table d') (r_id instance) = {}"
    using empty_tags by (intro impI)
  have E2: "vd_ingredients validated_data = Some []
          \<and> key_ok auth_user (vd_tags validated_data) (tag_table d) \<longrightarrow>
        linked_ids (ingredient_table d') (r_id instance) = {}"
    using empty_ingredients by (intro impI) simp
  have R: "key_ok auth_user (vd_tags validated_data) (tag_table d)
          \<and> key_ok auth_user (vd_ingredients validated_data) (ingredient_table d) \<longrightarrow>
        (\<exists>instance'. res = Inr instance')"
    using returns by (intro impI) simp
  show ?thesis
    by (rule conjI[OF T conjI[OF I conjI[OF E1 conjI[OF E2 R]]]])
qed

theorem update_links_outcome_witness:
  "unambiguous 1 [''vegetarian'', ''lunch''] (tag_table example_db) \<and>
   fst (update 1 recipe_1 lunch_data example_db) = Inr recipe_1 \<and>
   linked_ids (tag_table example_db) (r_id recipe_1) = {1, 2} \<and>
   linked_ids (tag_table (snd (update 1 recipe_1 lunch_data example_db))) (r_id recipe_1)
     = resolved 1 [''vegetarian'', ''lunch''] (tag_table (snd (update 1 recipe_1 lunch_data example_db))) \<and>
   linked_ids (tag_table (snd (update 1 recipe_1 lunch_data example_db))) (r_id recipe_1) = {2, 4} \<and>
   linked_ids (ingredient_table (snd (update 1 recipe_1 lunch_data example_db))) (r_id recipe_1) = {} \<and>
   linked_ids (tag_table (snd (update 1 recipe_2 salt_data example_db))) (r_id recipe_2) = {} \<and>
   linked_ids (ingredient_table (snd (update 1 recipe_2 salt_data example_db))) (r_id recipe_2)
     = resolved 1 [''salt'', ''pepper''] (ingredient_table (snd (update 1 recipe_2 salt_data example_db))) \<and>
   linked_ids (ingredient_table (snd (update 1 recipe_2 salt_data example_db))) (r_id recipe_2) = {1, 2} \<and>
   \<not> unambiguous 1 [''lunch'', ''vegan'', ''dinner''] (tag_table duplicate_db) \<and>
   processed 1 [''lunch'', ''vegan'', ''dinner''] (tag_table duplicate_db) = [''lunch''] \<and>
   fst (update 1 recipe_1 partial_data duplicate_db) = Inl MultipleObjectsReturned \<and>
   linked_ids (tag_table (snd (update 1 recipe_1 partial_data duplicate_db))) (r_id recipe_1)
     = resolved 1 [''lunch''] (tag_table (snd (update 1 recipe_1 partial_data duplicate_db))) \<and>
   linked_ids (tag_table (snd (update 1 recipe_1 partial_data duplicate_db))) (r_id recipe_1) = {4} \<and>
   ingredient_table (snd (update 1 recipe_1 partial_data duplicate_db)) = ingredient_table duplicate_db"
proof -
  let ?a = "update 1 recipe_1 lunch_data example_db"
  let ?b = "update 1 recipe_2 salt_data example_db"
  let ?c = "update 1 recipe_1 partial_data duplicate_db"
  have ha: "?a = (fst ?a, snd ?a)" and hb: "?b = (fst ?b, snd ?b)" and hc: "?c = (fst ?c, snd ?c)"
    by simp_all
  have ka: "vd_tags lunch_data = Some [''vegetarian'', ''lunch'']"
    and ka': "vd_ingredients lunch_data = Some [] \<and> key_ok 1 (vd_tags lunch_data) (tag_table example_db)"
    and kb: "vd_tags salt_data = Some []"
    and kb': "vd_ingredients salt_data = Some [''salt'', ''pepper'']
               \<and> key_ok 1 (vd_tags salt_data) (tag_table example_db)"
    and kc: "vd_tags partial_data = Some [''lunch'', ''vegan'', ''dinner'']"
    by code_simp+
  have ua: "unambiguous 1 [''vegetarian'', ''lunch''] (tag_table example_db)"
    and ub: "unambiguous 1 [''salt'', ''pepper''] (ingredient_table example_db)"
    and uc: "\<not> unambiguous 1 [''lunch'', ''vegan'', ''dinner''] (tag_table duplicate_db)"
    and pc: "processed 1 [''lunch'', ''vegan'', ''dinner''] (tag_table duplicate_db) = [''lunch'']"
    by code_simp+
  have vals: "fst ?a = Inr recipe_1"
    "linked_ids (tag_table example_db) (r_id recipe_1) = {1, 2}"
    "linked_ids (tag_table (snd ?a)) (r_id recipe_1) = {2, 4}"
    "linked_ids (ingredient_table (snd ?b)) (r_id recipe_2) = {1, 2}"
    "linked_ids (tag_table (snd ?c)) (r_id recipe_1) = {4}"
    by code_simp+
  note a = update_links_outcome[OF ha]
  note b = update_links_outcome[OF hb]
  note c = update_links_outcome[OF hc]
  from a[THEN conjunct1, THEN spec, THEN mp, OF ka] ua
  have a1: "linked_ids (tag_table (snd ?a)) (r_id recipe_1)
     = resolved 1 [''vegetarian'', ''lunch''] (tag_table (snd ?a))"
    by blast
  from a[THEN conjunct2, THEN conjunct2, THEN conjunct2, THEN conjunct1, THEN mp, OF ka']
  have a2: "linked_ids (ingredient_table (snd ?a)) (r_id recipe_1) = {}" .
  from b[THEN conjunct2, THEN conjunct2, THEN conjunct1, THEN mp, OF kb]
  have b1: "linked_ids (tag_table (snd ?b)) (r_id recipe_2) = {}" .
  from b[THEN conjunct2, THEN conjunct1, THEN spec, THEN mp, OF kb'] ub
  have b2: "linked_ids (ingredient_table (snd ?b)) (r_id recipe_2)
     = resolved 1 [''salt'', ''pepper''] (ingredient_table (snd ?b))"
    by blast
  from c[THEN conjunct1, THEN spec, THEN mp, OF kc] uc pc
  have c1: "fst ?c = Inl MultipleObjectsReturned"
    and c2: "linked_ids (tag_table (snd ?c)) (r_id recipe_1) = resolved 1 [''lunch''] (tag_table (snd ?c))"
    and c3: "ingredient_table (snd ?c) = ingredient_table duplicate_db"
    by simp_all
  from ua uc pc vals a1 a2 b1 b2 c1 c2 c3 show ?thesis by blast
qed

text \<open>
  The claim as stated fails on the store where user 1 owns two tags named vegan. The
  update with the tags \<open>[vegan]\<close> and the empty list of ingredients raises: recipe 2 is
  left without any tag although two rows have the name, and it keeps its ingredient
  although the list of ingredients is present and empty.
\<close>

theorem update_duplicate_counterexample:
  "vd_tags vegan_data = Some [''vegan''] \<and> vd_ingredients vegan_data = Some [] \<and>
   fst (update 1 recipe_2 vegan_data duplicate_db) = Inl MultipleObjectsReturned \<and>
   linked_ids (tag_table (snd (update 1 recipe_2 vegan_data duplicate_db))) (r_id recipe_2) = {} \<and>
   resolved 1 [''vegan''] (tag_table (snd (update 1 recipe_2 vegan_data duplicate_db))) = {1, 2} \<and>
   linked_ids (ingredient_table (snd (update 1 recipe_2 vegan_data duplicate_db))) (r_id recipe_2) = {1}"
  by code_simp

text \<open>
  C3. An update whose validated data have no tags key leaves the table of tags and its
  links as they were, whatever else the update does and however it ends; the same holds
  for the ingredients key.
\<close>

theorem update_absent_key_keeps_links:
  "(vd_tags validated_data = None \<longrightarrow>
      tag_table (snd (update auth_user instance validated_data d)) = tag_table d)
   \<and> (vd_ingredients validated_data = None \<longrightarrow>
      ingredient_table (snd (update auth_user instance validated_data d)) = ingredient_table d)"
  by (simp add: update_tag_table update_ingredient_table_absent)

theorem update_absent_key_keeps_links_witness:
  "vd_tags title_data = None \<and> vd_ingredients title_data = None \<and>
   fst (update 1 recipe_1 title_data example_db) = Inr (recipe_1\<lparr>r_title := ''New recipe title''\<rparr>) \<and>
   tag_table (snd (update 1 recipe_1 title_data example_db)) = tag_table example_db \<and>
   ingredient_table (snd (update 1 recipe_1 title_data example_db)) = ingredient_table example_db"
proof -
  have a: "vd_tags title_data = None" "vd_ingredients title_data = None"
    by (simp_all add: title_data_def no_data_def)
  have b: "fst (update 1 recipe_1 title_data example_db) = Inr (recipe_1\<lparr>r_title := ''New recipe title''\<rparr>)"
    by code_simp
  from update_absent_key_keeps_links[of title_data 1 recipe_1 example_db] a b
  show ?thesis by simp
qed

text \<open>
  C4, as amended. One spec with name \<open>n\<close> is processed for the user. When exactly one
  row of the user has that name, this row is linked to the recipe and no row is created.
  When no row has it, exactly one row with this user and this name is created and linked.
  When more than one row has it, the lookup raises MultipleObjectsReturned and nothing is
  created or linked. The loop is the one of \<open>_get_or_create_tags\<close> and of
  \<open>_get_or_create_ingredients\<close>.
\<close>

theorem get_or_create_cases:
  assumes "get_or_create_attrs auth_user [n] recipe t = (res, t')"
  shows "(matching auth_user n (rows t) = [] \<longrightarrow>
            res = None \<and>
            (\<exists>obj. rows t' = rows t @ [obj] \<and> attr_user obj = auth_user \<and> attr_name obj = n
                   \<and> (r_id recipe, attr_id obj) \<in> set (links t')))
       \<and> (\<forall>x. matching auth_user n (rows t) = [x] \<longrightarrow>
            res = None \<and> rows t' = rows t \<and> (r_id recipe, attr_id x) \<in> set (links t'))
       \<and> (2 \<le> length (matching auth_user n (rows t)) \<longrightarrow>
            res = Some MultipleObjectsReturned \<and> t' = t)"
proof -
  have none: "res = None \<and>
            (\<exists>obj. rows t' = rows t @ [obj] \<and> attr_user obj = auth_user \<and> attr_name obj = n
                   \<and> (r_id recipe, attr_id obj) \<in> set (links t'))"
    if "matching auth_user n (rows t) = []"
    using assms get_or_create_none[OF that] by auto
  have one: "res = None \<and> rows t' = rows t \<and> (r_id recipe, attr_id x) \<in> set (links t')"
    if "matching auth_user n (rows t) = [x]" for x
    using assms get_or_create_one[OF that] by auto
  have many: "res = Some MultipleObjectsReturned \<and> t' = t"
    if "2 \<le> length (matching auth_user n (rows t))"
    using assms get_or_create_many[OF that] by auto
  from none one many show ?thesis by blast
qed

theorem get_or_create_cases_witness:
  "matching 1 ''vegan'' (rows (tag_table example_db))
     = [\<lparr>attr_id = 1, attr_name = ''vegan'', attr_user = 1\<rparr>] \<and>
   fst (get_or_create_attrs 1 [''vegan''] recipe_4 (tag_table example_db)) = None \<and>
   rows (snd (get_or_create_attrs 1 [''vegan''] recipe_4 (tag_table example_db)))
     = rows (tag_table example_db) \<and>
   (r_id recipe_4, 1) \<in> set (links (snd (get_or_create_attrs 1 [''vegan''] recipe_4 (tag_table example_db)))) \<and>
   matching 1 ''lunch'' (rows (tag_table example_db)) = [] \<and>
   fst (get_or_create_attrs 1 [''lunch''] recipe_4 (tag_table example_db)) = None \<and>
   rows (snd (get_or_create_attrs 1 [''lunch''] recipe_4 (tag_table example_db)))
     = rows (tag_table example_db) @ [\<lparr>attr_id = 4, attr_name = ''lunch'', attr_user = 1\<rparr>] \<and>
   2 \<le> length (matching 1 ''vegan'' (rows (tag_table duplicate_db))) \<and>
   get_or_create_attrs 1 [''vegan''] recipe_4 (tag_table duplicate_db)
     = (Some MultipleObjectsReturned, tag_table duplicate_db)"
proof -
  let ?one = "get_or_create_attrs 1 [''vegan''] recipe_4 (tag_table example_db)"
  let ?none = "get_or_create_attrs 1 [''lunch''] recipe_4 (tag_table example_db)"
  let ?many = "get_or_create_attrs 1 [''vegan''] recipe_4 (tag_table duplicate_db)"
  have m1: "matching 1 ''vegan'' (rows (tag_table example_db))
     = [\<lparr>attr_id = 1, attr_name = ''vegan'', attr_user = 1\<rparr>]"
    by code_simp
  have m0: "matching 1 ''lunch'' (rows (tag_table example_db)) = []"
    by code_simp
  have m2: "2 \<le> length (matching 1 ''vegan'' (rows (tag_table duplicate_db)))"
    by code_simp
  have h1: "?one = (fst ?one, snd ?one)" and h0: "?none = (fst ?none, snd ?none)"
    and h2: "?many = (fst ?many, snd ?many)"
    by simp_all
  from get_or_create_cases[OF h1] m1
  have one: "fst ?one = None" "rows (snd ?one) = rows (tag_table example_db)"
    "(r_id recipe_4, 1) \<in> set (links (snd ?one))"
    by force+
  from get_or_create_cases[OF h0] m0
  have none: "fst ?none = None" by blast
  have new: "rows (snd ?none)
     = rows (tag_table example_db) @ [\<lparr>attr_id = 4, attr_name = ''lunch'', attr_user = 1\<rparr>]"
    by code_simp
  from get_or_create_cases[OF h2] m2
  have "fst ?many = Some MultipleObjectsReturned" "snd ?many = tag_table duplicate_db"
    by blast+
  then have many: "?many = (Some MultipleObjectsReturned, tag_table duplicate_db)"
    by (metis prod.collapse)
  from m1 m0 m2 one none new many show ?thesis by blast
qed

text \<open>
  The claim as stated fails where the user owns two tags of the name: a row with the name
  exists, and it is not linked, since the lookup raises.
\<close>

theorem get_or_create_duplicate_counterexample:
  "matching 1 ''vegan'' (rows (tag_table duplicate_db))
     = [\<lparr>attr_id = 1, attr_name = ''vegan'', attr_user = 1\<rparr>,
        \<lparr>attr_id = 2, attr_name = ''vegan'', attr_user = 1\<rparr>] \<and>
   get_or_create_tags 1 [''vegan''] recipe_4 duplicate_db = (Some MultipleObjectsReturned, duplicate_db) \<and>
   linked_ids (tag_table duplicate_db) (r_id recipe_4) = {}"
  by code_simp

text \<open>
  C5, as amended. Repetitions of a name in a list of specs change nothing: the two loops,
  create and update do for a list what they do for the list without the repetitions. When
  the caller has at most one row of each name of the list, and the link table holds no
  link twice, then after the update, and after a create that the store accepts, every name
  of the list has exactly one row of the caller and that row is linked to the recipe
  exactly once. When the caller already has several rows of a name of the list, the update
  raises MultipleObjectsReturned, the create does not return, and the rows of that name
  are left as they were. The same holds for the ingredients, whose list is processed only
  when the tags did not raise.
\<close>

theorem repeated_specs_outcome:
  "get_or_create_tags auth_user names recipe d
     = get_or_create_tags auth_user (first_occurrences names) recipe d
   \<and> get_or_create_ingredients auth_user names recipe d
     = get_or_create_ingredients auth_user (first_occurrences names) recipe d
   \<and> create auth_user (validated_data\<lparr>vd_tags := Some names\<rparr>) d
     = create auth_user (validated_data\<lparr>vd_tags := Some (first_occurrences names)\<rparr>) d
   \<and> create auth_user (validated_data\<lparr>vd_ingredients := Some names\<rparr>) d
     = create auth_user (validated_data\<lparr>vd_ingredients := Some (first_occurrences names)\<rparr>) d
   \<and> update auth_user instance (validated_data\<lparr>vd_tags := Some names\<rparr>) d
     = update auth_user instance (validated_data\<lparr>vd_tags := Some (first_occurrences names)\<rparr>) d
   \<and> update auth_user instance (validated_data\<lparr>vd_ingredients := Some names\<rparr>) d
     = update auth_user instance (validated_data\<lparr>vd_ingredients := Some (first_occurrences names)\<rparr>) d
   \<and> (\<forall>n \<in> set names.
         vd_tags validated_data = Some names \<and> unambiguous auth_user names (tag_table d)
           \<and> distinct (links (tag_table d)) \<longrightarrow>
         one_row_linked_once auth_user n (r_id instance)
           (tag_table (snd (update auth_user instance validated_data d)))
         \<and> (fst (create auth_user validated_data d) \<noteq> Inl IntegrityError \<longrightarrow>
              one_row_linked_once auth_user n (next_recipe_id d)
                (tag_table (snd (create auth_user validated_data d)))))
   \<and> (\<forall>n \<in> set names.
         vd_ingredients validated_data = Some names
           \<and> key_ok auth_user (vd_tags validated_data) (tag_table d)
           \<and> unambiguous auth_user names (ingredient_table d)
           \<and> distinct (links (ingredient_table d)) \<longrightarrow>
         one_row_linked_once auth_user n (r_id instance)
           (ingredient_table (snd (update auth_user instance validated_data d)))
         \<and> (fst (create auth_user validated_data d) \<noteq> Inl IntegrityError \<longrightarrow>
              one_row_linked_once auth_user n (next_recipe_id d)
                (ingredient_table (snd (create auth_user validated_data d)))))
   \<and> (\<forall>n \<in> set names.
         vd_tags validated_data = Some names
           \<and> 2 \<le> length (matching auth_user n (rows (tag_table d))) \<longrightarrow>
         fst (update auth_user instance validated_data d) = Inl MultipleObjectsReturned
         \<and> matching auth_user n (rows (tag_table (snd (update auth_user instance validated_data d))))
             = matching auth_user n (rows (tag_table d))
         \<and> (\<forall>r. fst (create auth_user validated_data d) \<noteq> Inr r)
         \<and> matching auth_user n (rows (tag_table (snd (create auth_user validated_data d))))
             = matching auth_user n (rows (tag_table d)))
   \<and> (\<forall>n \<in> set names.
         vd_ingredients validated_data = Some names
           \<and> 2 \<le> length (matching auth_user n (rows (ingredient_table d))) \<longrightarrow>
         fst (update auth_user instance validated_data d) = Inl MultipleObjectsReturned
         \<and> matching auth_user n (rows (ingredient_table (snd (update auth_user instance validated_data d))))
             = matching auth_user n (rows (ingredient_table d))
         \<and> (\<forall>r. fst (create auth_user validated_data d) \<noteq> Inr r)
         \<and> matching auth_user n (rows (ingredient_table (snd (create auth_user validated_data d))))
             = matching auth_user n (rows (ingredient_table d)))"
proof -
  let ?f = "first_occurrences names"
  let ?upd = "update auth_user instance validated_data d"
  let ?cre = "create auth_user validated_data d"
  have tg: "get_or_create_tags auth_user ?f r e = get_or_create_tags auth_user names r e" for r e
    using loop_first_occurrences[of auth_user names r "tag_table e"]
    by (simp add: get_or_create_tags_def)
  have ig: "get_or_create_ingredients auth_user ?f r e = get_or_create_ingredients auth_user names r e"
    for r e
    using loop_first_occurrences[of auth_user names r "ingredient_table e"]
    by (simp add: get_or_create_ingredients_def)
  have A1: "get_or_create_tags auth_user names recipe d = get_or_create_tags auth_user ?f recipe d"
    by (simp only: tg)
  have A2: "get_or_create_ingredients auth_user names recipe d
              = get_or_create_ingredients auth_user ?f recipe d"
    by (simp only: ig)
  have B1: "create auth_user (validated_data\<lparr>vd_tags := Some names\<rparr>) d
     = create auth_user (validated_data\<lparr>vd_tags := Some ?f\<rparr>) d"
    by (simp add: create_def tg cong: sum.case_cong prod.case_cong option.case_cong)
  have B2: "create auth_user (validated_data\<lparr>vd_ingredients := Some names\<rparr>) d
     = create auth_user (validated_data\<lparr>vd_ingredients := Some ?f\<rparr>) d"
    by (simp add: create_def ig cong: sum.case_cong prod.case_cong option.case_cong)
  have B3: "update auth_user instance (validated_data\<lparr>vd_tags := Some names\<rparr>) d
     = update auth_user instance (validated_data\<lparr>vd_tags := Some ?f\<rparr>) d"
    by (simp add: update_def tg cong: sum.case_cong prod.case_cong option.case_cong)
  have B4: "update auth_user instance (validated_data\<lparr>vd_ingredients := Some names\<rparr>) d
     = update auth_user instance (validated_data\<lparr>vd_ingredients := Some ?f\<rparr>) d"
    by (simp add: update_def ig cong: sum.case_cong prod.case_cong option.case_cong)
  have C1: "\<forall>n \<in> set names.
         vd_tags validated_data = Some names \<and> unambiguous auth_user names (tag_table d)
           \<and> distinct (links (tag_table d)) \<longrightarrow>
         one_row_linked_once auth_user n (r_id instance) (tag_table (snd ?upd))
         \<and> (fst ?cre \<noteq> Inl IntegrityError \<longrightarrow>
              one_row_linked_once auth_user n (next_recipe_id d) (tag_table (snd ?cre)))"
  proof (intro ballI impI, elim conjE)
    fix n
    assume n: "n \<in> set names" and k: "vd_tags validated_data = Some names"
      and u: "unambiguous auth_user names (tag_table d)" and dl: "distinct (links (tag_table d))"
    have up: "one_row_linked_once auth_user n (r_id instance) (tag_table (snd ?upd))"
      using one_row_clear[OF u n dl, of "instance"] by (simp add: update_tag_table k)
    have cr: "one_row_linked_once auth_user n (next_recipe_id d) (tag_table (snd ?cre))"
      if ok: "fst ?cre \<noteq> Inl IntegrityError"
    proof -
      from create_outcome[OF ok] obtain r0 where r0: "r_id r0 = next_recipe_id d"
        and t: "tag_table (snd ?cre) = snd (get_or_create_attrs auth_user names r0 (tag_table d))"
        using k by auto
      from loop_one_row_linked_once[OF u n dl, of r0] r0 t show ?thesis by simp
    qed
    from up cr
    show "one_row_linked_once auth_user n (r_id instance) (tag_table (snd ?upd))
         \<and> (fst ?cre \<noteq> Inl IntegrityError \<longrightarrow>
              one_row_linked_once auth_user n (next_recipe_id d) (tag_table (snd ?cre)))"
      by blast
  qed
  have C2: "\<forall>n \<in> set names.
         vd_ingredients validated_data = Some names
           \<and> key_ok auth_user (vd_tags validated_data) (tag_table d)
           \<and> unambiguous auth_user names (ingredient_table d)
           \<and> distinct (links (ingredient_table d)) \<longrightarrow>
         one_row_linked_once auth_user n (r_id instance) (ingredient_table (snd ?upd))
         \<and> (fst ?cre \<noteq> Inl IntegrityError \<longrightarrow>
              one_row_linked_once auth_user n (next_recipe_id d) (ingredient_table (snd ?cre)))"
  proof (intro ballI impI, elim conjE)
    fix n
    assume n: "n \<in> set names" and k: "vd_ingredients validated_data = Some names"
      and tk: "key_ok auth_user (vd_tags validated_data) (tag_table d)"
      and u: "unambiguous auth_user names (ingredient_table d)"
      and dl: "distinct (links (ingredient_table d))"
    have up: "one_row_linked_once auth_user n (r_id instance) (ingredient_table (snd ?upd))"
      using one_row_clear[OF u n dl, of "instance"] by (simp add: update_ingredient_table k tk)
    have cr: "one_row_linked_once auth_user n (next_recipe_id d) (ingredient_table (snd ?cre))"
      if ok: "fst ?cre \<noteq> Inl IntegrityError"
    proof -
      from create_outcome[OF ok] obtain r0 where r0: "r_id r0 = next_recipe_id d"
        and t: "ingredient_table (snd ?cre)
                  = snd (get_or_create_attrs auth_user names r0 (ingredient_table d))"
        using k tk by (auto simp: key_ok_alt)
      from loop_one_row_linked_once[OF u n dl, of r0] r0 t show ?thesis by simp
    qed
    from up cr
    show "one_row_linked_once auth_user n (r_id instance) (ingredient_table (snd ?upd))
         \<and> (fst ?cre \<noteq> Inl IntegrityError \<longrightarrow>
              one_row_linked_once auth_user n (next_recipe_id d) (ingredient_table (snd ?cre)))"
      by blast
  qed
  have D1: "\<forall>n \<in> set names.
         vd_tags validated_data = Some names
           \<and> 2 \<le> length (matching auth_user n (rows (tag_table d))) \<longrightarrow>
         fst ?upd = Inl MultipleObjectsReturned
         \<and> matching auth_user n (rows (tag_table (snd ?upd))) = matching auth_user n (rows (tag_table d))
         \<and> (\<forall>r. fst ?cre \<noteq> Inr r)
         \<and> matching auth_user n (rows (tag_table (snd ?cre))) = matching auth_user n (rows (tag_table d))"
  proof (intro ballI impI, elim conjE)
    fix n
    assume n: "n \<in> set names" and k: "vd_tags validated_data = Some names"
      and m: "2 \<le> length (matching auth_user n (rows (tag_table d)))"
    from n m have nu: "\<not> unambiguous auth_user names (tag_table d)"
      by (auto simp: unambiguous_def intro!: bexI[of _ n])
    have u1: "fst ?upd = Inl MultipleObjectsReturned"
      using nu k by (simp add: update_fst key_ok_def)
    have u2: "matching auth_user n (rows (tag_table (snd ?upd))) = matching auth_user n (rows (tag_table d))"
      using loop_keeps_ambiguous[of auth_user n "clear_links (r_id instance) (tag_table d)" names "instance"] m
      by (simp add: update_tag_table k)
    have c: "(\<forall>r. fst ?cre \<noteq> Inr r)
         \<and> matching auth_user n (rows (tag_table (snd ?cre))) = matching auth_user n (rows (tag_table d))"
    proof (cases "fst ?cre = Inl IntegrityError")
      case True
      then have "snd ?cre = d" by (rule create_integrity)
      with True show ?thesis by simp
    next
      case False
      from create_outcome[OF False] obtain r0 where
        t: "tag_table (snd ?cre) = snd (get_or_create_attrs auth_user names r0 (tag_table d))"
        and f: "fst ?cre = Inl MultipleObjectsReturned"
        using k nu by auto
      from loop_keeps_ambiguous[OF m, of names r0] t f show ?thesis by simp
    qed
    from u1 u2 c
    show "fst ?upd = Inl MultipleObjectsReturned
         \<and> matching auth_user n (rows (tag_table (snd ?upd))) = matching auth_user n (rows (tag_table d))
         \<and> (\<forall>r. fst ?cre \<noteq> Inr r)
         \<and> matching auth_user n (rows (tag_table (snd ?cre))) = matching auth_user n (rows (tag_table d))"
      by blast
  qed
  have D2: "\<forall>n \<in> set names.
         vd_ingredients validated_data = Some names
           \<and> 2 \<le> length (matching auth_user n (rows (ingredient_table d))) \<longrightarrow>
         fst ?upd = Inl MultipleObjectsReturned
         \<and> matching auth_user n (rows (ingredient_table (snd ?upd)))
             = matching auth_user n (rows (ingredient_table d))
         \<and> (\<forall>r. fst ?cre \<noteq> Inr r)
         \<and> matching auth_user n (rows (ingredient_table (snd ?cre)))
             = matching auth_user n (rows (ingredient_table d))"
  proof (intro ballI impI, elim conjE)
    fix n
    assume n: "n \<in> set names" and k: "vd_ingredients validated_data = Some names"
      and m: "2 \<le> length (matching auth_user n (rows (ingredient_table d)))"
    from n m have nu: "\<not> unambiguous auth_user names (ingredient_table d)"
      by (auto simp: unambiguous_def intro!: bexI[of _ n])
    have u1: "fst ?upd = Inl MultipleObjectsReturned"
      using nu k by (simp add: update_fst key_ok_def)
    have u2: "matching auth_user n (rows (ingredient_table (snd ?upd)))
                = matching auth_user n (rows (ingredient_table d))"
      using loop_keeps_ambiguous[of auth_user n "clear_links (r_id instance) (ingredient_table d)" names "instance"] m
      by (simp add: update_ingredient_table k)
    have c: "(\<forall>r. fst ?cre \<noteq> Inr r)
         \<and> matching auth_user n (rows (ingredient_table (snd ?cre)))
             = matching auth_user n (rows (ingredient_table d))"
    proof (cases "fst ?cre = Inl IntegrityError")
      case True
      then have "snd ?cre = d" by (rule create_integrity)
      with True show ?thesis by simp
    next
      case False
      from create_outcome[OF False] obtain r0 where
        t0: "ingredient_table (snd ?cre)
              = (if unambiguous auth_user (case vd_tags validated_data of None \<Rightarrow> [] | Some ns \<Rightarrow> ns) (tag_table d)
                 then snd (get_or_create_attrs auth_user
                             (case vd_ingredients validated_data of None \<Rightarrow> [] | Some ns \<Rightarrow> ns) r0
                             (ingredient_table d))
                 else ingredient_table d)"
        and f0: "fst ?cre
                  = (if unambiguous auth_user (case vd_tags validated_data of None \<Rightarrow> [] | Some ns \<Rightarrow> ns) (tag_table d)
                       \<and> unambiguous auth_user
                            (case vd_ingredients validated_data of None \<Rightarrow> [] | Some ns \<Rightarrow> ns)
                            (ingredient_table d)
                     then Inr r0 else Inl MultipleObjectsReturned)"
        by blast
      from f0 k nu have f: "fst ?cre = Inl MultipleObjectsReturned" by simp
      have "matching auth_user n (rows (ingredient_table (snd ?cre)))
              = matching auth_user n (rows (ingredient_table d))"
      proof (cases "unambiguous auth_user (case vd_tags validated_data of None \<Rightarrow> [] | Some ns \<Rightarrow> ns) (tag_table d)")
        case True
        with t0 k have "ingredient_table (snd ?cre)
              = snd (get_or_create_attrs auth_user names r0 (ingredient_table d))"
          by simp
        with loop_keeps_ambiguous[OF m, of names r0] show ?thesis by simp
      next
        case False
        with t0 show ?thesis by simp
      qed
      with f show ?thesis by simp
    qed
    from u1 u2 c
    show "fst ?upd = Inl MultipleObjectsReturned
         \<and> matching auth_user n (rows (ingredient_table (snd ?upd)))
             = matching auth_user n (rows (ingredient_table d))
         \<and> (\<forall>r. fst ?cre \<noteq> Inr r)
         \<and> matching auth_user n (rows (ingredient_table (snd ?cre)))
             = matching auth_user n (rows (ingredient_table d))"
      by blast
  qed
  show ?thesis
    by (rule conjI[OF A1 conjI[OF A2 conjI[OF B1 conjI[OF B2 conjI[OF B3 conjI[OF B4
          conjI[OF C1 conjI[OF C2 conjI[OF D1 D2]]]]]]]]])
qed

theorem repeated_specs_outcome_witness:
  "create 1 twice_data example_db
     = create 1 (twice_data\<lparr>vd_tags := Some [''lunch'', ''vegan'']\<rparr>) example_db \<and>
   update 1 recipe_4 twice_data example_db
     = update 1 recipe_4 (twice_data\<lparr>vd_ingredients := Some [''salt'']\<rparr>) example_db \<and>
   unambiguous 1 [''lunch'', ''vegan'', ''lunch''] (tag_table example_db) \<and>
   distinct (links (tag_table example_db)) \<and>
   one_row_linked_once 1 ''lunch'' (r_id recipe_4) (tag_table (snd (update 1 recipe_4 twice_data example_db))) \<and>
   fst (create 1 twice_data example_db) \<noteq> Inl IntegrityError \<and>
   one_row_linked_once 1 ''lunch'' (next_recipe_id example_db)
     (tag_table (snd (create 1 twice_data example_db))) \<and>
   unambiguous 1 [''salt'', ''salt''] (ingredient_table example_db) \<and>
   distinct (links (ingredient_table example_db)) \<and>
   one_row_linked_once 1 ''salt'' (r_id recipe_4)
     (ingredient_table (snd (update 1 recipe_4 twice_data example_db))) \<and>
   one_row_linked_once 1 ''salt'' (next_recipe_id example_db)
     (ingredient_table (snd (create 1 twice_data example_db))) \<and>
   2 \<le> length (matching 1 ''vegan'' (rows (tag_table duplicate_db))) \<and>
   fst (update 1 recipe_4 twice_vegan_data duplicate_db) = Inl MultipleObjectsReturned \<and>
   matching 1 ''vegan'' (rows (tag_table (snd (update 1 recipe_4 twice_vegan_data duplicate_db))))
     = matching 1 ''vegan'' (rows (tag_table duplicate_db))"
proof -
  have f: "first_occurrences [''lunch'', ''vegan'', ''lunch''] = [''lunch'', ''vegan'']"
    "first_occurrences [''salt'', ''salt''] = [''salt'']"
    by code_simp+
  have s: "twice_data\<lparr>vd_tags := Some [''lunch'', ''vegan'', ''lunch'']\<rparr> = twice_data"
    "twice_data\<lparr>vd_ingredients := Some [''salt'', ''salt'']\<rparr> = twice_data"
    by (simp_all add: twice_data_def)
  have k: "vd_tags twice_data = Some [''lunch'', ''vegan'', ''lunch'']"
    "vd_ingredients twice_data = Some [''salt'', ''salt'']"
    "vd_tags twice_vegan_data = Some [''vegan'', ''vegan'']"
    by (simp_all add: twice_data_def twice_vegan_data_def)
  have n: "''lunch'' \<in> set [''lunch'', ''vegan'', ''lunch'']" "''salt'' \<in> set [''salt'', ''salt'']"
    "''vegan'' \<in> set [''vegan'', ''vegan'']"
    by simp_all
  have u: "unambiguous 1 [''lunch'', ''vegan'', ''lunch''] (tag_table example_db)"
    "distinct (links (tag_table example_db))"
    "unambiguous 1 [''salt'', ''salt''] (ingredient_table example_db)"
    "distinct (links (ingredient_table example_db))"
    "key_ok 1 (vd_tags twice_data) (tag_table example_db)"
    "fst (create 1 twice_data example_db) \<noteq> Inl IntegrityError"
    "2 \<le> length (matching 1 ''vegan'' (rows (tag_table duplicate_db)))"
    by code_simp+
  note t = repeated_specs_outcome[of 1 "[''lunch'', ''vegan'', ''lunch'']" recipe_4 example_db twice_data recipe_4]
  note i = repeated_specs_outcome[of 1 "[''salt'', ''salt'']" recipe_4 example_db twice_data recipe_4]
  note v = repeated_specs_outcome[of 1 "[''vegan'', ''vegan'']" recipe_4 duplicate_db twice_vegan_data recipe_4]
  from t[THEN conjunct2, THEN conjunct2, THEN conjunct1] f(1) s(1)
  have e1: "create 1 twice_data example_db
     = create 1 (twice_data\<lparr>vd_tags := Some [''lunch'', ''vegan'']\<rparr>) example_db"
    by simp
  from i[THEN conjunct2, THEN conjunct2, THEN conjunct2, THEN conjunct2, THEN conjunct2, THEN conjunct1]
    f(2) s(2)
  have e2: "update 1 recipe_4 twice_data example_db
     = update 1 recipe_4 (twice_data\<lparr>vd_ingredients := Some [''salt'']\<rparr>) example_db"
    by simp
  from t[THEN conjunct2, THEN conjunct2, THEN conjunct2, THEN conjunct2, THEN conjunct2, THEN conjunct2,
         THEN conjunct1, THEN bspec, OF n(1)] k(1) u(1,2,6)
  have p1: "one_row_linked_once 1 ''lunch'' (r_id recipe_4)
              (tag_table (snd (update 1 recipe_4 twice_data example_db)))"
    and p2: "one_row_linked_once 1 ''lunch'' (next_recipe_id example_db)
              (tag_table (snd (create 1 twice_data example_db)))"
    by blast+
  from i[THEN conjunct2, THEN conjunct2, THEN conjunct2, THEN conjunct2, THEN conjunct2, THEN conjunct2,
         THEN conjunct2, THEN conjunct1, THEN bspec, OF n(2)] k(2) u(3,4,5,6)
  have p3: "one_row_linked_once 1 ''salt'' (r_id recipe_4)
              (ingredient_table (snd (update 1 recipe_4 twice_data example_db)))"
    and p4: "one_row_linked_once 1 ''salt'' (next_recipe_id example_db)
              (ingredient_table (snd (create 1 twice_data example_db)))"
    by blast+
  from v[THEN conjunct2, THEN conjunct2, THEN conjunct2, THEN conjunct2, THEN conjunct2, THEN conjunct2,
         THEN conjunct2, THEN conjunct2, THEN conjunct1, THEN bspec, OF n(3)] k(3) u(7)
  have q1: "fst (update 1 recipe_4 twice_vegan_data duplicate_db) = Inl MultipleObjectsReturned"
    and q2: "matching 1 ''vegan'' (rows (tag_table (snd (update 1 recipe_4 twice_vegan_data duplicate_db))))
     = matching 1 ''vegan'' (rows (tag_table duplicate_db))"
    by blast+
  from e1 e2 u(1,2,3,4,6,7) p1 p2 p3 p4 q1 q2 show ?thesis by blast
qed

text \<open>
  The claim as stated fails on the store where user 1 owns two tags named vegan: a create
  with the tags \<open>[vegan, vegan]\<close> raises, two rows of the name remain and none of them is
  linked to the new recipe.
\<close>

theorem repeated_specs_counterexample:
  "vd_tags twice_vegan_data = Some [''vegan'', ''vegan''] \<and>
   fst (create 1 twice_vegan_data duplicate_db) = Inl MultipleObjectsReturned \<and>
   matching 1 ''vegan'' (rows (tag_table (snd (create 1 twice_vegan_data duplicate_db))))
     = [\<lparr>attr_id = 1, attr_name = ''vegan'', attr_user = 1\<rparr>,
        \<lparr>attr_id = 2, attr_name = ''vegan'', attr_user = 1\<rparr>] \<and>
   linked_ids (tag_table (snd (create 1 twice_vegan_data duplicate_db))) (next_recipe_id duplicate_db) = {}"
  by code_simp

text \<open>
  C6. A create request makes a recipe whose owner is the caller, whatever \<open>user\<close> key
  the request data carry, and an update request changes the owner of no recipe: the
  \<open>user\<close> key of the request data is ignored by both.
\<close>

theorem owner_is_caller:
  "perform_create request_user (data\<lparr>p_user := other\<rparr>) d = perform_create request_user data d
   \<and> perform_update request_user instance (data\<lparr>p_user := other\<rparr>) d
       = perform_update request_user instance data d
   \<and> (\<forall>r d'. perform_create request_user data d = (Inr r, d') \<longrightarrow>
         r_user r = request_user \<and> recipes d' = recipes d @ [r])
   \<and> (instance \<in> set (recipes d) \<and> distinct (map r_id (recipes d)) \<longrightarrow>
         map (\<lambda>r. (r_id r, r_user r)) (recipes (snd (perform_update request_user instance data d)))
           = map (\<lambda>r. (r_id r, r_user r)) (recipes d))"
proof -
  have a: "to_internal_value (data\<lparr>p_user := other\<rparr>) = to_internal_value data"
    by (simp add: to_internal_value_def)
  have c: "r_user r = request_user \<and> recipes d' = recipes d @ [r]"
    if "perform_create request_user data d = (Inr r, d')" for r d'
    using create_Inr(1,2)[of request_user "(to_internal_value data)\<lparr>vd_user := Some request_user\<rparr>" d r d'] that
    by (simp add: perform_create_def)
  have u: "map (\<lambda>r. (r_id r, r_user r)) (recipes (snd (perform_update request_user instance data d)))
           = map (\<lambda>r. (r_id r, r_user r)) (recipes d)"
    if i: "instance \<in> set (recipes d)" and dis: "distinct (map r_id (recipes d))"
  proof -
    obtain res d' where run: "update request_user instance (to_internal_value data) d = (res, d')"
      by (cases "update request_user instance (to_internal_value data) d")
    show ?thesis
    proof (cases res)
      case (Inl e)
      with run have l: "update request_user instance (to_internal_value data) d = (Inl e, d')"
        by simp
      have "snd (perform_update request_user instance data d) = d'"
        unfolding perform_update_def l by simp
      with update_Inl[OF l] show ?thesis by (simp only:)
    next
      case (Inr inst')
      with run have r: "update request_user instance (to_internal_value data) d = (Inr inst', d')"
        by simp
      from update_Inr(3)[OF r] have "r_id inst' = r_id instance" "r_user inst' = r_user instance"
        by (simp_all add: set_attrs_keeps to_internal_value_def)
      from save_owners[OF i dis this]
      have "map (\<lambda>r. (r_id r, r_user r)) (recipes (save inst' d))
              = map (\<lambda>r. (r_id r, r_user r)) (recipes d)" .
      moreover have "recipes d' = recipes (save inst' d)" by (rule update_Inr(4)[OF r])
      moreover have "snd (perform_update request_user instance data d) = d'"
        unfolding perform_update_def r by simp
      ultimately show ?thesis by (simp only:)
    qed
  qed
  have "perform_create request_user (data\<lparr>p_user := other\<rparr>) d = perform_create request_user data d"
    unfolding perform_create_def a ..
  moreover have "perform_update request_user instance (data\<lparr>p_user := other\<rparr>) d
       = perform_update request_user instance data d"
    unfolding perform_update_def a ..
  ultimately show ?thesis using c u by blast
qed

theorem owner_is_caller_witness:
  "p_user pongal_payload = Some 2 \<and>
   fst (perform_create 1 pongal_payload example_db) = Inr pongal \<and>
   r_user pongal = 1 \<and>
   recipes (snd (perform_create 1 pongal_payload example_db)) = recipes example_db @ [pongal] \<and>
   recipe_1 \<in> set (recipes example_db) \<and> distinct (map r_id (recipes example_db)) \<and>
   map (\<lambda>r. (r_id r, r_user r)) (recipes (snd (perform_update 1 recipe_1 pongal_payload example_db)))
     = map (\<lambda>r. (r_id r, r_user r)) (recipes example_db)"
proof -
  have p: "p_user pongal_payload = Some 2" by (simp add: pongal_payload_def)
  have f: "fst (perform_create 1 pongal_payload example_db) = Inr pongal" by code_simp
  then have h: "perform_create 1 pongal_payload example_db
                  = (Inr pongal, snd (perform_create 1 pongal_payload example_db))"
    by (metis prod.collapse)
  have i: "recipe_1 \<in> set (recipes example_db)" by code_simp
  have k: "distinct (map r_id (recipes example_db))" by code_simp
  from owner_is_caller[of 1 "Some 2" pongal_payload example_db recipe_1] h i k
  have "r_user pongal = 1"
    and "recipes (snd (perform_create 1 pongal_payload example_db)) = recipes example_db @ [pongal]"
    and "map (\<lambda>r. (r_id r, r_user r)) (recipes (snd (perform_update 1 recipe_1 pongal_payload example_db)))
     = map (\<lambda>r. (r_id r, r_user r)) (recipes example_db)"
    by blast+
  with p f i k show ?thesis by blast
qed

text \<open>
  C9. An upload that the image validation rejects leaves the store, and with it the image
  of the recipe, as it was, and the request on a recipe of the caller is answered with
  status 400.
\<close>

theorem invalid_upload_rejected:
  assumes "is_valid data = None"
  shows "snd (upload_image is_valid max_str_digits d user tags ingredients pk data) = d
       \<and> (\<forall>recipe. get_object max_str_digits d user tags ingredients pk = Inr recipe \<longrightarrow>
             fst (upload_image is_valid max_str_digits d user tags ingredients pk data) = Inr HTTP_400_BAD_REQUEST)"
  using assms by (simp add: upload_image_def split: sum.splits)

theorem invalid_upload_rejected_witness:
  "example_is_valid ''notanimage'' = None \<and>
   get_object 4300 example_db 1 None None 2 = Inr recipe_2 \<and>
   r_image recipe_2 = Some ''uploads/recipe/a.jpg'' \<and>
   upload_image example_is_valid 4300 example_db 1 None None 2 ''notanimage''
     = (Inr HTTP_400_BAD_REQUEST, example_db)"
proof -
  have v: "example_is_valid ''notanimage'' = None" by (simp add: example_is_valid_def)
  have g: "get_object 4300 example_db 1 None None 2 = Inr recipe_2" by code_simp
  have i: "r_image recipe_2 = Some ''uploads/recipe/a.jpg''" by (simp add: recipe_2_def)
  from invalid_upload_rejected[of example_is_valid "''notanimage''" 4300 example_db 1 None None 2, OF v] g
  have "snd (upload_image example_is_valid 4300 example_db 1 None None 2 ''notanimage'') = example_db"
    and "fst (upload_image example_is_valid 4300 example_db 1 None None 2 ''notanimage'') = Inr HTTP_400_BAD_REQUEST"
    by blast+
  then have "upload_image example_is_valid 4300 example_db 1 None None 2 ''notanimage''
     = (Inr HTTP_400_BAD_REQUEST, example_db)"
    by (metis prod.collapse)
  with v g i show ?thesis by blast
qed

text \<open>
  C10. On create, validated data without the tags key and validated data with the empty
  list of tags give the same result, and the new recipe then has no tag, no link of the
  store naming the next recipe identifier beforehand; the same holds for the ingredients
  key.
\<close>

theorem create_absent_like_empty:
  "create auth_user (validated_data\<lparr>vd_tags := None\<rparr>) d
     = create auth_user (validated_data\<lparr>vd_tags := Some []\<rparr>) d
   \<and> create auth_user (validated_data\<lparr>vd_ingredients := None\<rparr>) d
     = create auth_user (validated_data\<lparr>vd_ingredients := Some []\<rparr>) d
   \<and> (\<forall>r d'. create auth_user validated_data d = (Inr r, d') \<longrightarrow>
         ((vd_tags validated_data = None \<or> vd_tags validated_data = Some [])
            \<and> linked_ids (tag_table d) (next_recipe_id d) = {}
          \<longrightarrow> linked_ids (tag_table d') (r_id r) = {})
       \<and> ((vd_ingredients validated_data = None \<or> vd_ingredients validated_data = Some [])
            \<and> linked_ids (ingredient_table d) (next_recipe_id d) = {}
          \<longrightarrow> linked_ids (ingredient_table d') (r_id r) = {}))"
proof -
  have a: "create auth_user (validated_data\<lparr>vd_tags := None\<rparr>) d
     = create auth_user (validated_data\<lparr>vd_tags := Some []\<rparr>) d"
    by (simp add: create_def)
  have b: "create auth_user (validated_data\<lparr>vd_ingredients := None\<rparr>) d
     = create auth_user (validated_data\<lparr>vd_ingredients := Some []\<rparr>) d"
    by (simp add: create_def)
  have t: "linked_ids (tag_table d') (r_id r) = {}"
    if "create auth_user validated_data d = (Inr r, d')"
      and "vd_tags validated_data = None \<or> vd_tags validated_data = Some []"
      and "linked_ids (tag_table d) (next_recipe_id d) = {}" for r d'
    using create_Inr(3,4)[OF that(1)] that(2,3) by auto
  have i: "linked_ids (ingredient_table d') (r_id r) = {}"
    if "create auth_user validated_data d = (Inr r, d')"
      and "vd_ingredients validated_data = None \<or> vd_ingredients validated_data = Some []"
      and "linked_ids (ingredient_table d) (next_recipe_id d) = {}" for r d'
    using create_Inr(3,5)[OF that(1)] that(2,3) by auto
  from a b t i show ?thesis by blast
qed

theorem create_absent_like_empty_witness:
  "vd_tags plain_data = None \<and> vd_ingredients plain_data = None \<and>
   linked_ids (tag_table example_db) (next_recipe_id example_db) = {} \<and>
   linked_ids (ingredient_table example_db) (next_recipe_id example_db) = {} \<and>
   fst (create 1 plain_data example_db) = Inr pongal \<and>
   create 1 plain_data example_db = create 1 (plain_data\<lparr>vd_tags := Some []\<rparr>) example_db \<and>
   linked_ids (tag_table (snd (create 1 plain_data example_db))) (r_id pongal) = {} \<and>
   linked_ids (ingredient_table (snd (create 1 plain_data example_db))) (r_id pongal) = {}"
proof -
  have n: "vd_tags plain_data = None" "vd_ingredients plain_data = None"
    by (simp_all add: plain_data_def no_data_def)
  have l: "linked_ids (tag_table example_db) (next_recipe_id example_db) = {}"
    "linked_ids (ingredient_table example_db) (next_recipe_id example_db) = {}"
    by code_simp+
  have f: "fst (create 1 plain_data example_db) = Inr pongal" by code_simp
  then have h: "create 1 plain_data example_db = (Inr pongal, snd (create 1 plain_data example_db))"
    by (metis prod.collapse)
  have s: "plain_data\<lparr>vd_tags := None\<rparr> = plain_data"
    by (simp add: plain_data_def no_data_def)
  from create_absent_like_empty[of 1 plain_data example_db] h n l s
  have "create 1 plain_data example_db = create 1 (plain_data\<lparr>vd_tags := Some []\<rparr>) example_db"
    and "linked_ids (tag_table (snd (create 1 plain_data example_db))) (r_id pongal) = {}"
    and "linked_ids (ingredient_table (snd (create 1 plain_data example_db))) (r_id pongal) = {}"
    by (simp, blast, blast)
  with n l f show ?thesis by blast
qed

end
